theory Spec2Isabelle
  imports Main "HOL-Library.Sublist"
begin

section \<open>Python strings and dictionaries\<close>

text \<open>
  A Python \<open>str\<close> is modelled as a \<open>string\<close>, one \<open>char\<close> per character of the
  Python string.  A Python \<open>dict\<close> is modelled as an association list with pairwise
  distinct keys in insertion order: assigning to a key that is present replaces its value
  in place, assigning to a new key appends the entry.
\<close>

type_synonym ('k, 'v) pydict = "('k \<times> 'v) list"

fun dict_set :: "('k, 'v) pydict \<Rightarrow> 'k \<Rightarrow> 'v \<Rightarrow> ('k, 'v) pydict" where
  "dict_set [] k v = [(k, v)]"
| "dict_set ((k', v') # d) k v = (if k' = k then (k, v) # d else (k', v') # dict_set d k v)"

definition dict_get :: "('k, 'v) pydict \<Rightarrow> 'k \<Rightarrow> 'v \<Rightarrow> 'v" where
  "dict_get d k dflt = (case map_of d k of None \<Rightarrow> dflt | Some v \<Rightarrow> v)"

definition dict_keys :: "('k, 'v) pydict \<Rightarrow> 'k list" where
  "dict_keys d = map fst d"

text \<open>
  \<open>str.lower\<close> on the letters \<open>A\<close> to \<open>Z\<close>; every other character is kept.  The code
  compares lowered text with words of ASCII letters only.
\<close>

definition char_lower :: "char \<Rightarrow> char" where
  "char_lower c =
     (let n = (of_char c :: nat) in if 65 \<le> n \<and> n \<le> 90 then char_of (n + 32) else c)"

definition str_lower :: "string \<Rightarrow> string" where
  "str_lower s = map char_lower s"

definition startswith :: "string \<Rightarrow> string \<Rightarrow> bool" where
  "startswith s p = prefix p s"

definition endswith :: "string \<Rightarrow> string \<Rightarrow> bool" where
  "endswith s p = suffix p s"

text \<open>\<open>s.strip(c)\<close> for a single character \<open>c\<close>: leading and trailing \<open>c\<close> are removed.\<close>

definition str_rstrip :: "char \<Rightarrow> string \<Rightarrow> string" where
  "str_rstrip c s = rev (dropWhile (\<lambda>x. x = c) (rev s))"

definition str_strip :: "char \<Rightarrow> string \<Rightarrow> string" where
  "str_strip c s = str_rstrip c (dropWhile (\<lambda>x. x = c) s)"

text \<open>
  \<open>s.strip()\<close> removes leading and trailing whitespace; among the characters below 256
  these are the ones \<open>str.isspace\<close> accepts.
\<close>

definition is_space :: "char \<Rightarrow> bool" where
  "is_space c \<longleftrightarrow> (of_char c :: nat) \<in> {9, 10, 11, 12, 13, 28, 29, 30, 31, 32, 133, 160}"

definition py_strip :: "string \<Rightarrow> string" where
  "py_strip s = rev (dropWhile is_space (rev (dropWhile is_space s)))"

text \<open>\<open>os.path.basename\<close> and \<open>os.path.dirname\<close>, as \<open>posixpath\<close> defines them.\<close>

definition basename :: "string \<Rightarrow> string" where
  "basename p = rev (takeWhile (\<lambda>c. c \<noteq> CHR ''/'') (rev p))"

definition dirname :: "string \<Rightarrow> string" where
  "dirname p =
     (let head = take (length p - length (basename p)) p
      in if head \<noteq> [] \<and> head \<noteq> replicate (length head) CHR ''/''
         then str_rstrip CHR ''/'' head else head)"

text \<open>
  \<open>s.split(sep)\<close> for a non-empty separator: the pieces between the non-overlapping
  occurrences of \<open>sep\<close>, found from the left.  The result is never empty, so the \<open>[]\<close>
  branch of the case is not reached.
\<close>

function str_split :: "string \<Rightarrow> string \<Rightarrow> string list" where
  "str_split sep [] = [[]]"
| "str_split sep (x # xs) =
     (if sep \<noteq> [] \<and> prefix sep (x # xs)
      then [] # str_split sep (drop (length sep) (x # xs))
      else (case str_split sep xs of [] \<Rightarrow> [[x]] | p # ps \<Rightarrow> (x # p) # ps))"
  by pat_completeness auto
termination
  by (relation "measure (\<lambda>(sep, s). length s)") auto

section \<open>repo_fetcher.py\<close>

datatype error = ValueError | HTTPError nat

text \<open>
  An entry of the tree listing, with the two fields the code reads.  A response of
  \<open>requests.get\<close>: its status code, its text, and the two entries of its decoded JSON
  body that the code reads (\<open>None\<close> when the key is absent).
\<close>

record tree_item =
  item_type :: string
  item_path :: string

record response =
  status_code :: nat
  resp_text :: string
  json_default_branch :: "string option"
  json_tree :: "tree_item list option"

text \<open>
  The network is a function from the requested URL to the response (a mock); the list of
  URLs requested so far is threaded through every call, so that the requests a run makes
  can be read off the result.  The progress messages the code prints are not part of the
  model.
\<close>

type_synonym network = "string \<Rightarrow> response"

definition GITHUB_API_BASE :: string where
  "GITHUB_API_BASE = ''https://api.github.com''"

definition RAW_BASE :: string where
  "RAW_BASE = ''https://raw.githubusercontent.com''"

definition SUPPORTED_IMAGE_EXTENSIONS :: "string list" where
  "SUPPORTED_IMAGE_EXTENSIONS = [''.png'', ''.jpg'', ''.jpeg'', ''.gif'', ''.svg'']"

definition requests_get :: "network \<Rightarrow> string list \<Rightarrow> string \<Rightarrow> response \<times> string list" where
  "requests_get net log url = (net url, log @ [url])"

definition raise_for_status :: "response \<Rightarrow> error + unit" where
  "raise_for_status resp =
     (if 400 \<le> status_code resp \<and> status_code resp < 600
      then Inl (HTTPError (status_code resp)) else Inr ())"

text \<open>
  \<open>urlparse\<close> belongs to the standard library; \<open>parse_repo_url\<close> takes the function that
  gives the \<open>path\<close> component of the parsed URL (or the error \<open>urlparse\<close> raises) as its
  first argument.
\<close>

definition parse_repo_url ::
  "(string \<Rightarrow> error + string) \<Rightarrow> string \<Rightarrow> error + (string \<times> string)" where
  "parse_repo_url urlparse_path repo_url =
     (case urlparse_path repo_url of
        Inl e \<Rightarrow> Inl e
      | Inr path \<Rightarrow>
          (let parts = str_split ''/'' (str_strip CHR ''/'' path)
           in if length parts < 2 then Inl ValueError else Inr (parts ! 0, parts ! 1)))"

definition get_repo_default_branch ::
  "network \<Rightarrow> string list \<Rightarrow> string \<Rightarrow> string \<Rightarrow> (error + string) \<times> string list" where
  "get_repo_default_branch net log owner repo =
     (let url = GITHUB_API_BASE @ ''/repos/'' @ owner @ ''/'' @ repo;
          (resp, log') = requests_get net log url
      in case raise_for_status resp of
           Inl e \<Rightarrow> (Inl e, log')
         | Inr _ \<Rightarrow>
             (Inr (case json_default_branch resp of None \<Rightarrow> ''main'' | Some b \<Rightarrow> b), log'))"

definition get_repo_tree ::
  "network \<Rightarrow> string list \<Rightarrow> string \<Rightarrow> string \<Rightarrow> string \<Rightarrow>
     (error + tree_item list) \<times> string list" where
  "get_repo_tree net log owner repo branch =
     (let url = GITHUB_API_BASE @ ''/repos/'' @ owner @ ''/'' @ repo @ ''/git/trees/''
                  @ branch @ ''?recursive=1'';
          (resp, log') = requests_get net log url
      in case raise_for_status resp of
           Inl e \<Rightarrow> (Inl e, log')
         | Inr _ \<Rightarrow> (Inr (case json_tree resp of None \<Rightarrow> [] | Some t \<Rightarrow> t), log'))"

definition raw_url :: "string \<Rightarrow> string \<Rightarrow> string \<Rightarrow> string \<Rightarrow> string" where
  "raw_url owner repo branch path =
     RAW_BASE @ ''/'' @ owner @ ''/'' @ repo @ ''/'' @ branch @ ''/'' @ path"

definition download_raw_file ::
  "network \<Rightarrow> string list \<Rightarrow> string \<Rightarrow> string \<Rightarrow> string \<Rightarrow> string \<Rightarrow>
     string option \<times> string list" where
  "download_raw_file net log owner repo branch path =
     (let (resp, log') = requests_get net log (raw_url owner repo branch path)
      in if status_code resp = 200 then (Some (resp_text resp), log') else (None, log'))"

text \<open>The dictionary \<open>fetch_repository_docs\<close> returns, one field for each of its keys.\<close>

record fetch_result =
  res_markdown_files :: "(string, string) pydict"
  res_image_files :: "string list"
  res_branch :: string
  res_repo :: string
  res_owner :: string

text \<open>
  One round of the loop over the tree.  The state is the dictionary of Markdown files, the
  list of image paths and the request log.  \<open>if content:\<close> holds for a string that is
  neither \<open>None\<close> nor empty.
\<close>

definition fetch_item ::
  "network \<Rightarrow> string \<Rightarrow> string \<Rightarrow> string \<Rightarrow> tree_item \<Rightarrow>
     (string, string) pydict \<times> string list \<times> string list \<Rightarrow>
     (string, string) pydict \<times> string list \<times> string list" where
  "fetch_item net own rep br item st =
     (case st of (mds, imgs, log) \<Rightarrow>
        if item_type item \<noteq> ''blob'' then (mds, imgs, log)
        else
          let path = str_lower (item_path item);
              original_path = item_path item;
              (mds', log') =
                (if endswith path ''.md''
                 then (case download_raw_file net log own rep br original_path of
                         (content, log1) \<Rightarrow>
                           (case content of
                              None \<Rightarrow> (mds, log1)
                            | Some c \<Rightarrow>
                                if c \<noteq> [] then (dict_set mds original_path c, log1)
                                else (mds, log1)))
                 else (mds, log));
              imgs' = (if \<exists>e \<in> set SUPPORTED_IMAGE_EXTENSIONS. endswith path e
                       then imgs @ [original_path] else imgs)
          in (mds', imgs', log'))"

definition fetch_repository_docs ::
  "(string \<Rightarrow> error + string) \<Rightarrow> network \<Rightarrow> string list \<Rightarrow> string \<Rightarrow>
     (error + fetch_result) \<times> string list" where
  "fetch_repository_docs urlparse_path net log repo_url =
     (case parse_repo_url urlparse_path repo_url of
        Inl e \<Rightarrow> (Inl e, log)
      | Inr (own, rep) \<Rightarrow>
          (case get_repo_default_branch net log own rep of
             (Inl e, log1) \<Rightarrow> (Inl e, log1)
           | (Inr br, log1) \<Rightarrow>
               (case get_repo_tree net log1 own rep br of
                  (Inl e, log2) \<Rightarrow> (Inl e, log2)
                | (Inr tree, log2) \<Rightarrow>
                    (case fold (fetch_item net own rep br) tree ([], [], log2) of
                       (mds, imgs, log3) \<Rightarrow>
                         (Inr \<lparr>res_markdown_files = mds, res_image_files = imgs,
                                res_branch = br, res_repo = rep, res_owner = own\<rparr>, log3)))))"

section \<open>ai_summarizer.py\<close>

text \<open>
  The summarization service is a function from the prompts sent so far and the current
  prompt to the text of the first choice of the response; \<open>None\<close> stands for any exception
  raised by the call or while reading the response.  The prompts sent are threaded through
  as a log.  \<open>repr\<close> of a Python string belongs to the language; it is the argument
  \<open>py_repr\<close>.
\<close>

type_synonym client = "string list \<Rightarrow> string \<Rightarrow> string option"

definition TRUNCATION_MARKER :: string where
  \<open>TRUNCATION_MARKER = ''\<newline>\<newline>[... Content truncated for brevity ...]''\<close>

definition IMAGE_NOTE :: string where
  \<open>IMAGE_NOTE =
     ''\<newline>\<newline>Note: This section includes images/diagrams for improved understanding.''\<close>

definition max_retries :: nat where
  "max_retries = 2"

definition fallback_summary :: "string \<Rightarrow> string" where
  \<open>fallback_summary path =
     ''Documentation file: '' @ basename path @ ''. For full details, refer to: ['' @
     basename path @ '']('' @ path @ '')''\<close>

fun join_strs :: "string \<Rightarrow> string list \<Rightarrow> string" where
  "join_strs sep [] = []"
| "join_strs sep [x] = x"
| "join_strs sep (x # y # ys) = x @ sep @ join_strs sep (y # ys)"

definition list_repr :: "(string \<Rightarrow> string) \<Rightarrow> string list \<Rightarrow> string" where
  \<open>list_repr py_repr xs = ''['' @ join_strs '', '' (map py_repr xs) @ '']''\<close>

definition build_prompt ::
  "(string \<Rightarrow> string) \<Rightarrow> string \<Rightarrow> string \<Rightarrow> string list \<Rightarrow> string \<Rightarrow> string" where
  \<open>build_prompt py_repr path file_dir related_images truncated_content =
     ''\<newline>Summarize the following markdown file in 3-5 concise sentences.\<newline>\<newline>File: ''
     @ path @ ''\<newline>Directory: '' @ file_dir
     @ ''\<newline>Related images in same directory: '' @ list_repr py_repr related_images
     @ ''\<newline>\<newline>If there are related images, mention them in the summary.\<newline>End with: "For full details, refer to: [''
     @ basename path @ '']('' @ path @ '')"\<newline>\<newline>Markdown content:\<newline>''
     @ truncated_content @ ''\<newline>''\<close>

text \<open>
  The retry loop for one file.  The result is the value assigned to \<open>summaries[path]\<close>
  (\<open>None\<close> when the loop ends without an assignment) and the log.  The pause between two
  attempts has no effect on the result.
\<close>

function summarize_attempts ::
  "client \<Rightarrow> string list \<Rightarrow> string \<Rightarrow> string \<Rightarrow> bool \<Rightarrow> nat \<Rightarrow> string option \<times> string list" where
  "summarize_attempts cl log prompt path has_images retry_count =
     (if retry_count < max_retries
      then (case cl log prompt of
              Some content \<Rightarrow>
                (let summary_text = py_strip content
                 in (Some (if has_images then summary_text @ IMAGE_NOTE else summary_text),
                     log @ [prompt]))
            | None \<Rightarrow>
                (if retry_count + 1 < max_retries
                 then summarize_attempts cl (log @ [prompt]) prompt path has_images
                        (retry_count + 1)
                 else (Some (fallback_summary path), log @ [prompt])))
      else (None, log))"
  by pat_completeness auto
termination
  by (relation "measure (\<lambda>(cl, log, prompt, path, has_images, retry_count).
        max_retries - retry_count)") auto

declare summarize_attempts.simps [simp del]

definition related_images_of :: "string list option \<Rightarrow> string \<Rightarrow> string list" where
  "related_images_of image_files file_dir =
     (case image_files of
        None \<Rightarrow> []
      | Some imgs \<Rightarrow> if imgs \<noteq> [] then filter (\<lambda>img. startswith img file_dir) imgs else [])"

definition truncate_content :: "string \<Rightarrow> string" where
  "truncate_content content =
     (if length content > 3000 then take 3000 content @ TRUNCATION_MARKER else content)"

text \<open>
  One round of the loop over \<open>markdown_files.items()\<close>.  None of the operations before
  the retry loop raises on strings, so the outer handler is not entered.
\<close>

definition summarize_file ::
  "client \<Rightarrow> (string \<Rightarrow> string) \<Rightarrow> string list option \<Rightarrow> string \<times> string \<Rightarrow>
     (string, string) pydict \<times> string list \<Rightarrow> (string, string) pydict \<times> string list" where
  "summarize_file cl py_repr image_files entry st =
     (case (entry, st) of ((path, content), (summaries, log)) \<Rightarrow>
        let file_dir = dirname path;
            related_images = related_images_of image_files file_dir;
            has_images = (length related_images > 0);
            truncated_content = truncate_content content;
            prompt = build_prompt py_repr path file_dir related_images truncated_content
        in (case summarize_attempts cl log prompt path has_images 0 of
              (Some summary, log') \<Rightarrow> (dict_set summaries path summary, log')
            | (None, log') \<Rightarrow> (summaries, log')))"

definition summarize_markdown_files ::
  "client \<Rightarrow> (string \<Rightarrow> string) \<Rightarrow> (string, string) pydict \<Rightarrow> string list option \<Rightarrow>
     (string, string) pydict \<times> string list" where
  "summarize_markdown_files cl py_repr markdown_files image_files =
     fold (summarize_file cl py_repr image_files) markdown_files ([], [])"

section \<open>html_builder.py\<close>

text \<open>
  The glyphs outside ASCII that the templates contain, as the bytes of their UTF-8
  encoding.
\<close>

definition ICON_FOLDER :: string where
  "ICON_FOLDER = [CHR 0xEF, CHR 0xA3, CHR 0xBF, CHR 0xC3, CHR 0xBC, CHR 0xC3, CHR 0xAC, CHR 0xC3, CHR 0x85]"

definition ICON_PALETTE :: string where
  "ICON_PALETTE = [CHR 0xEF, CHR 0xA3, CHR 0xBF, CHR 0xC3, CHR 0xBC, CHR 0xC3, CHR 0xA9, CHR 0xC2, CHR 0xAE]"

definition ICON_BUILDING :: string where
  "ICON_BUILDING = [CHR 0xEF, CHR 0xA3, CHR 0xBF, CHR 0xC3, CHR 0xBC, CHR 0xC3, CHR 0xA8, CHR 0xC3, CHR 0xB3, CHR 0xC3, CHR 0x94, CHR 0xE2, CHR 0x88, CHR 0x8F, CHR 0xC3, CHR 0xA8]"

definition ICON_CAMERA :: string where
  "ICON_CAMERA = [CHR 0xEF, CHR 0xA3, CHR 0xBF, CHR 0xC3, CHR 0xBC, CHR 0xC3, CHR 0xAC, CHR 0xE2, CHR 0x88, CHR 0x91]"

definition ICON_FRAME :: string where
  "ICON_FRAME = [CHR 0xEF, CHR 0xA3, CHR 0xBF, CHR 0xC3, CHR 0xBC, CHR 0xC3, CHR 0xB1, CHR 0xC2, CHR 0xBA, CHR 0xC3, CHR 0x94, CHR 0xE2, CHR 0x88, CHR 0x8F, CHR 0xC3, CHR 0xA8]"


fun digit_char :: "nat \<Rightarrow> char" where
  "digit_char n = char_of (48 + n)"

text \<open>\<open>str(n)\<close> for a natural number, as the f-strings format \<open>len(...)\<close> and the counter.\<close>

function str_of_nat :: "nat \<Rightarrow> string" where
  "str_of_nat n =
     (if n < 10 then [digit_char n] else str_of_nat (n div 10) @ [digit_char (n mod 10)])"
  by pat_completeness auto
termination
  by (relation "measure id") auto

declare str_of_nat.simps [simp del]

text \<open>\<open>sub in s\<close> on strings, and \<open>s.replace(c, new)\<close> for a single character \<open>c\<close>.\<close>

definition str_contains :: "string \<Rightarrow> string \<Rightarrow> bool" where
  "str_contains s sub = sublist sub s"

definition str_replace :: "char \<Rightarrow> string \<Rightarrow> string \<Rightarrow> string" where
  "str_replace c new s = concat (map (\<lambda>x. if x = c then new else [x]) s)"

text \<open>
  \<open>organized[category][path] = value\<close>: the inner dictionary is looked up under the
  category (each of the five categories is present from the start) and updated.
\<close>

definition put_in_category ::
  "(string, (string, string) pydict) pydict \<Rightarrow> string \<Rightarrow> string \<Rightarrow> string \<Rightarrow>
     (string, (string, string) pydict) pydict" where
  "put_in_category organized category path v =
     dict_set organized category (dict_set (dict_get organized category []) path v)"

definition organize_step ::
  "(string, string) pydict \<Rightarrow> string \<Rightarrow> (string, (string, string) pydict) pydict \<Rightarrow>
     (string, (string, string) pydict) pydict" where
  "organize_step summaries path organized =
     (let file_name = str_lower (basename path);
          dir_name = str_lower (dirname path)
      in if file_name \<in> set [''readme.md'', ''index.md'']
         then put_in_category organized ''README and Main Docs'' path (dict_get summaries path [])
         else if str_contains dir_name ''doc'' \<or> str_contains dir_name ''guide''
         then put_in_category organized ''Documentation'' path (dict_get summaries path [])
         else if str_contains dir_name ''tutorial'' \<or> str_contains dir_name ''example''
         then put_in_category organized ''Guides and Tutorials'' path (dict_get summaries path [])
         else if str_contains dir_name ''api'' \<or> str_contains dir_name ''reference''
         then put_in_category organized ''API Reference'' path (dict_get summaries path [])
         else put_in_category organized ''Other Files'' path (dict_get summaries path []))"

definition organize_content_for_html ::
  "(string, string) pydict \<Rightarrow> (string, string) pydict \<Rightarrow>
     (string, (string, string) pydict) pydict" where
  "organize_content_for_html markdown_files summaries =
     fold (organize_step summaries) (dict_keys markdown_files)
       [(''README and Main Docs'', []), (''Documentation'', []), (''Guides and Tutorials'', []),
        (''API Reference'', []), (''Other Files'', [])]"

text \<open>
  \<open>re.search\<close> with the pattern \<open>\[([^\]]+)\]\(([^)]+)\)\<close>: the leftmost \<open>[\<close> that is
  followed by a non-empty text without \<open>]\<close>, then \<open>](\<close>, then a non-empty text without
  \<open>)\<close>, then \<open>)\<close>.  The result is the two groups.
\<close>

definition match_link_after :: "string \<Rightarrow> (string \<times> string) option" where
  \<open>match_link_after s =
     (let file_name = takeWhile (\<lambda>c. c \<noteq> CHR '']'') s;
          rest = dropWhile (\<lambda>c. c \<noteq> CHR '']'') s
      in if file_name \<noteq> [] \<and> prefix '']('' rest
         then (let file_path = takeWhile (\<lambda>c. c \<noteq> CHR '')'') (drop 2 rest);
                   rest' = dropWhile (\<lambda>c. c \<noteq> CHR '')'') (drop 2 rest)
               in if file_path \<noteq> [] \<and> rest' \<noteq> [] then Some (file_name, file_path) else None)
         else None)\<close>

fun search_link :: "string \<Rightarrow> (string \<times> string) option" where
  "search_link [] = None"
| "search_link (c # cs) =
     (if c = CHR ''[''
      then (case match_link_after cs of Some g \<Rightarrow> Some g | None \<Rightarrow> search_link cs)
      else search_link cs)"

definition format_paragraph :: "string \<Rightarrow> string \<Rightarrow> string \<Rightarrow> string list" where
  \<open>format_paragraph own repo_name paragraph =
     (let para = py_strip paragraph
      in if para = [] then []
         else if startswith para ''Note:''
         then [''<div class="note">'' @ para @ ''</div>'']
         else if str_contains para ''For full details, refer to:'' \<and> own \<noteq> [] \<and> repo_name \<noteq> []
         then (case search_link para of
                 Some (file_name, file_path) \<Rightarrow>
                   (let github_url = ''https://github.com/'' @ own @ ''/'' @ repo_name @ ''/blob/main/'' @ file_path;
                        para' = ''For full details, refer to: <a href="'' @ github_url
                                @ ''" target="_blank" class="file-link">'' @ file_name @ ''</a>''
                    in [''<div class="reference">'' @ para' @ ''</div>''])
               | None \<Rightarrow> [''<div class="reference">'' @ para @ ''</div>''])
         else [''<p>'' @ para @ ''</p>''])\<close>

definition format_summary_content :: "string \<Rightarrow> string \<Rightarrow> string \<Rightarrow> string" where
  \<open>format_summary_content summary own repo_name =
     concat (concat (map (format_paragraph own repo_name) (str_split ''\<newline>\<newline>'' summary)))\<close>

definition display_name_of :: "string \<Rightarrow> string" where
  "display_name_of file_path =
     str_replace CHR ''-'' '' '' (str_replace CHR ''_'' '' '' (str_replace CHR ''/'' '' / '' file_path))"

definition file_url_of :: "string \<Rightarrow> string \<Rightarrow> string \<Rightarrow> string" where
  \<open>file_url_of own repo_name file_path =
     ''https://github.com/''
     @ own
     @ ''/''
     @ repo_name
     @ ''/blob/main/''
     @ file_path\<close>

definition create_file_section ::
  "string \<Rightarrow> string \<Rightarrow> string \<Rightarrow> string list option \<Rightarrow> string \<Rightarrow> string \<Rightarrow> string" where
  \<open>create_file_section file_path summary section_id image_files own repo_name =
     (let display_name = display_name_of file_path;
          file_url = file_url_of own repo_name file_path
      in ''\<newline>        ''
         @ ''<div class="section" id="''
         @ section_id
         @ ''">\<newline>            ''
         @ ''<h2 class="section-title">''
         @ display_name
         @ ''</h2>\<newline>            ''
         @ ''<div class="section-path">''
         @ ICON_FOLDER
         @ '' <a href="''
         @ file_url
         @ ''" target="_blank" class="file-link">''
         @ file_path
         @ ''</a></div>\<newline>            ''
         @ ''<div class="section-content">\<newline>                ''
         @ format_summary_content summary own repo_name
         @ ''\<newline>            ''
         @ ''</div>\<newline>        ''
         @ ''</div>\<newline>    '')\<close>

text \<open>
  The image gallery.  The three loops over the architecture images, the screenshots and
  the other images have the same body: \<open>gallery_item\<close>.
\<close>

definition image_url_of :: "string \<Rightarrow> string \<Rightarrow> string \<Rightarrow> string" where
  \<open>image_url_of own repo_name img_path =
     ''https://raw.githubusercontent.com/''
     @ own
     @ ''/''
     @ repo_name
     @ ''/main/''
     @ img_path\<close>

definition gallery_item :: "string \<Rightarrow> string \<Rightarrow> string \<Rightarrow> string" where
  \<open>gallery_item own repo_name img_path =
     (let img_url = image_url_of own repo_name img_path;
          img_name = basename img_path
      in ''\<newline>                ''
         @ ''<div class="gallery-item">\<newline>                    ''
         @ ''<img src="''
         @ img_url
         @ ''" alt="''
         @ img_name
         @ ''" class="gallery-image" />\<newline>                    ''
         @ ''<div class="gallery-caption">\<newline>                        ''
         @ ''<strong>''
         @ img_name
         @ ''</strong><br>\<newline>                        ''
         @ ''<small>''
         @ ICON_FOLDER
         @ '' ''
         @ img_path
         @ ''</small>\<newline>                    ''
         @ ''</div>\<newline>                ''
         @ ''</div>\<newline>            '')\<close>

definition gallery_group :: "string \<Rightarrow> string \<Rightarrow> string \<Rightarrow> string list \<Rightarrow> string" where
  \<open>gallery_group heading own repo_name images =
     (if images \<noteq> []
      then heading @ concat (map (gallery_item own repo_name) images) @ ''</div>''
      else [])\<close>

definition is_architecture_image :: "string \<Rightarrow> bool" where
  "is_architecture_image img_path \<longleftrightarrow>
     (\<exists>keyword \<in> set [''architecture'', ''diagram'', ''flow'', ''design''].
        str_contains (str_lower img_path) keyword)"

definition is_screenshot_image :: "string \<Rightarrow> bool" where
  "is_screenshot_image img_path \<longleftrightarrow>
     (\<exists>keyword \<in> set [''screenshot'', ''screen'', ''demo'']. str_contains (str_lower img_path) keyword)"

definition create_image_gallery_section ::
  "string list option \<Rightarrow> string \<Rightarrow> string \<Rightarrow> string" where
  \<open>create_image_gallery_section image_files own repo_name =
     (case image_files of
        None \<Rightarrow> []
      | Some imgs \<Rightarrow>
          if imgs = [] then []
          else
            (let architecture_images = filter is_architecture_image imgs;
                 screenshot_images =
                   filter (\<lambda>i. \<not> is_architecture_image i \<and> is_screenshot_image i) imgs;
                 other_images =
                   filter (\<lambda>i. \<not> is_architecture_image i \<and> \<not> is_screenshot_image i) imgs
             in ''\<newline>    ''
                @ ''<div class="image-gallery-section">\<newline>        ''
                @ ''<h1 class="gallery-title">''
                @ ICON_PALETTE
                @ '' Visual Assets & Architecture</h1>\<newline>        ''
                @ ''<div class="gallery-intro">\<newline>            ''
                @ ''<p>This section contains all visual assets found in the repository, organized by ''
                @ ''type.</p>\<newline>        ''
                @ ''</div>\<newline>    ''
                @ gallery_group
                    (''<h2 class="gallery-category">''
                     @ ICON_BUILDING
                     @ '' Architecture & Diagrams</h2><div class="image-grid">'')
                    own repo_name architecture_images
                @ gallery_group
                    (''<h2 class="gallery-category">''
                     @ ICON_CAMERA
                     @ '' Screenshots & Demos</h2><div class="image-grid">'')
                    own repo_name screenshot_images
                @ gallery_group
                    (''<h2 class="gallery-category">''
                     @ ICON_FRAME
                     @ '' Other Images</h2><div class="image-grid">'')
                    own repo_name other_images
                @ ''</div>''))\<close>

text \<open>
  The page template of \<open>generate_onboarding_html\<close>, cut at its HTML comments into the
  head, the cover page, the table of contents, the content sections, the image gallery and
  the footer.  The style sheet that \<open>get_css_styles\<close> returns is a constant text; it is the
  argument \<open>css\<close>.
\<close>

definition html_head :: "string \<Rightarrow> string \<Rightarrow> string" where
  \<open>html_head repo_name css =
     ''\<newline>''
     @ ''<!DOCTYPE html>\<newline>''
     @ ''<html lang="en">\<newline>''
     @ ''<head>\<newline>    ''
     @ ''<meta charset="UTF-8">\<newline>    ''
     @ ''<meta name="viewport" content="width=device-width, initial-scale=1.0">\<newline>    ''
     @ ''<title>''
     @ repo_name
     @ '' - Onboarding Documentation</title>\<newline>    ''
     @ ''<style>\<newline>        ''
     @ css
     @ ''\<newline>    ''
     @ ''</style>\<newline>''
     @ ''</head>\<newline>''
     @ ''<body>\<newline>''\<close>

definition cover_page :: "string \<Rightarrow> string \<Rightarrow> string \<Rightarrow> string \<Rightarrow> string \<Rightarrow> string \<Rightarrow> string" where
  \<open>cover_page company repo_name github_url author current_date branch_name =
     ''    <!-- Cover Page -->\<newline>    ''
     @ ''<div class="cover-page">\<newline>        ''
     @ ''<div class="cover-header">\<newline>            ''
     @ ''<div class="company-branding">\<newline>                ''
     @ ''<h1 class="company-name">''
     @ company
     @ ''</h1>\<newline>                ''
     @ ''<div class="company-tagline">Knowledge Base Documentation</div>\<newline>            ''
     @ ''</div>\<newline>        ''
     @ ''</div>\<newline>        ''
     @ ''\<newline>        ''
     @ ''<div class="cover-main">\<newline>            ''
     @ ''<h1 class="project-title">''
     @ repo_name
     @ ''</h1>\<newline>            ''
     @ ''<h2 class="subtitle">Onboarding Documentation</h2>\<newline>            ''
     @ ''\<newline>            ''
     @ ''<div class="project-info">\<newline>                ''
     @ ''<div class="info-item">\<newline>                    ''
     @ ''<span class="label">Repository:</span>\<newline>                    ''
     @ ''<a href="''
     @ github_url
     @ ''" target="_blank" class="repo-link">''
     @ github_url
     @ ''</a>\<newline>                ''
     @ ''</div>\<newline>                ''
     @ ''<div class="info-item">\<newline>                    ''
     @ ''<span class="label">Author:</span>\<newline>                    ''
     @ ''<span class="value">''
     @ author
     @ ''</span>\<newline>                ''
     @ ''</div>\<newline>                ''
     @ ''<div class="info-item">\<newline>                    ''
     @ ''<span class="label">Generated:</span>\<newline>                    ''
     @ ''<span class="value">''
     @ current_date
     @ ''</span>\<newline>                ''
     @ ''</div>\<newline>                ''
     @ ''<div class="info-item">\<newline>                    ''
     @ ''<span class="label">Branch:</span>\<newline>                    ''
     @ ''<span class="value">''
     @ branch_name
     @ ''</span>\<newline>                ''
     @ ''</div>\<newline>            ''
     @ ''</div>\<newline>        ''
     @ ''</div>\<newline>        ''
     @ ''\<newline>        ''
     @ ''<div class="cover-footer">\<newline>            ''
     @ ''<p>This document provides an overview of the repository structure and key ''
     @ ''documentation files.</p>\<newline>        ''
     @ ''</div>\<newline>    ''
     @ ''</div>\<newline>\<newline>''\<close>

definition toc_page :: "nat \<Rightarrow> string list \<Rightarrow> string" where
  \<open>toc_page n_summaries toc_items =
     ''    <!-- Table of Contents Page -->\<newline>    ''
     @ ''<div class="toc-page">\<newline>        ''
     @ ''<h1 class="page-title">Table of Contents</h1>\<newline>        ''
     @ ''<div class="toc-summary">\<newline>            ''
     @ ''<p>This document contains <strong>''
     @ str_of_nat n_summaries
     @ ''</strong> sections covering the main documentation files in the repository.</p>\<newline>    ''
     @ ''    ''
     @ ''</div>\<newline>        ''
     @ ''<ul class="toc-list">\<newline>            ''
     @ concat toc_items
     @ ''\<newline>        ''
     @ ''</ul>\<newline>    ''
     @ ''</div>\<newline>\<newline>''\<close>

definition content_pages :: "string list \<Rightarrow> string" where
  \<open>content_pages section_content =
     ''    <!-- Content Sections -->\<newline>    ''
     @ ''<div class="content-pages">\<newline>        ''
     @ concat section_content
     @ ''\<newline>    ''
     @ ''</div>\<newline>\<newline>''\<close>

definition gallery_part :: "string \<Rightarrow> string" where
  \<open>gallery_part image_gallery_section =
     ''    <!-- Image Gallery Section -->\<newline>    ''
     @ image_gallery_section
     @ ''\<newline>\<newline>''\<close>

definition document_footer :: "string \<Rightarrow> string" where
  \<open>document_footer github_url =
     ''    <!-- Footer -->\<newline>    ''
     @ ''<div class="document-footer">\<newline>        ''
     @ ''<p>Generated by AI-Powered Onboarding Documentation System</p>\<newline>        ''
     @ ''<p>For the most up-to-date information, please refer to the repository at <a href="''
     @ github_url
     @ ''">''
     @ github_url
     @ ''</a></p>\<newline>    ''
     @ ''</div>\<newline>''
     @ ''</body>\<newline>''
     @ ''</html>\<newline>''\<close>

definition html_template ::
  "string \<Rightarrow> string \<Rightarrow> string \<Rightarrow> string \<Rightarrow> string \<Rightarrow> string \<Rightarrow> string \<Rightarrow> nat \<Rightarrow>
     string list \<Rightarrow> string list \<Rightarrow> string \<Rightarrow> string" where
  "html_template repo_name css company github_url author current_date branch_name n_summaries
     toc_items section_content image_gallery_section =
     html_head repo_name css
     @ cover_page company repo_name github_url author current_date branch_name
     @ toc_page n_summaries toc_items
     @ content_pages section_content
     @ gallery_part image_gallery_section
     @ document_footer github_url"

text \<open>
  The loops that build the table of contents and the sections.  The state is
  \<open>toc_items\<close>, \<open>section_content\<close> and \<open>section_counter\<close>.
\<close>

definition add_file_entry ::
  "string \<Rightarrow> string \<Rightarrow> string \<times> string \<Rightarrow> string list \<times> string list \<times> nat \<Rightarrow>
     string list \<times> string list \<times> nat" where
  \<open>add_file_entry own repo_name entry st =
     (case (entry, st) of ((file_path, summary), (toc_items, section_content, section_counter)) \<Rightarrow>
        let section_id = ''section-''
     @ str_of_nat section_counter
        in (toc_items @ [''<li><a href="#''
                     @ section_id
                     @ ''">''
                     @ basename file_path
                     @ ''</a></li>''],
            section_content
              @ [create_file_section file_path summary section_id None own repo_name],
            section_counter + 1))\<close>

definition add_category ::
  "nat \<Rightarrow> string \<Rightarrow> string \<Rightarrow> string \<times> (string, string) pydict \<Rightarrow>
     string list \<times> string list \<times> nat \<Rightarrow> string list \<times> string list \<times> nat" where
  \<open>add_category n_categories own repo_name entry st =
     (case (entry, st) of ((category, files), (toc_items, section_content, section_counter)) \<Rightarrow>
        if files = [] then st
        else fold (add_file_entry own repo_name) files
               (if n_categories > 1
                then toc_items @ [''<li class="toc-category">''
                       @ category
                       @ '' (''
                       @ str_of_nat (length files)
                       @ '' files)</li>'']
                else toc_items,
                section_content, section_counter))\<close>

definition choose_organized_content ::
  "(string, string) pydict \<Rightarrow> (string, string) pydict option \<Rightarrow>
     (string, (string, string) pydict) pydict" where
  "choose_organized_content summaries markdown_files =
     (case markdown_files of
        None \<Rightarrow> [(''Documentation'', summaries)]
      | Some mds \<Rightarrow>
          if mds \<noteq> [] \<and> length summaries > 20
          then organize_content_for_html mds summaries
          else [(''Documentation'', summaries)])"

text \<open>
  \<open>generate_onboarding_html\<close>.  The date that \<open>datetime.now()\<close> gives, formatted, is the
  argument \<open>current_date\<close>.
\<close>

definition generate_onboarding_html ::
  "string \<Rightarrow> string \<Rightarrow> (string, string) pydict \<Rightarrow> (string, string) pydict \<Rightarrow> string \<Rightarrow> string \<Rightarrow>
     (string, string) pydict option \<Rightarrow> string list option \<Rightarrow> string" where
  "generate_onboarding_html current_date css summaries repo_meta author company markdown_files
     image_files =
     (let repo_name = dict_get repo_meta ''repo'' ''Repository'';
          own = dict_get repo_meta ''owner'' ''Unknown'';
          github_url = ''https://github.com/'' @ own @ ''/'' @ repo_name;
          organized_content = choose_organized_content summaries markdown_files
      in case fold (add_category (length organized_content) own repo_name) organized_content
                ([], [], 1) of
           (toc_items, section_content, section_counter) \<Rightarrow>
             html_template repo_name css company github_url author current_date
               (dict_get repo_meta ''branch'' ''main'') (length summaries)
               toc_items section_content
               (create_image_gallery_section image_files own repo_name))"

section \<open>Auxiliary definitions and example inputs\<close>

text \<open>
  The condition under which the loop of \<open>fetch_repository_docs\<close> stores a tree entry in
  the dictionary of Markdown files.
\<close>

definition stored_md :: "network \<Rightarrow> string \<Rightarrow> string \<Rightarrow> string \<Rightarrow> tree_item \<Rightarrow> bool" where
  "stored_md net own rep br it \<longleftrightarrow>
     item_type it = ''blob'' \<and> endswith (str_lower (item_path it)) ''.md'' \<and>
     status_code (net (raw_url own rep br (item_path it))) = 200 \<and>
     resp_text (net (raw_url own rep br (item_path it))) \<noteq> []"

text \<open>
  A stand-in for \<open>urlparse\<close> on URLs that start with \<open>https://github.com\<close>: the path is
  what follows these 18 characters.
\<close>

definition path_after_host :: "string \<Rightarrow> error + string" where
  "path_after_host u = Inr (drop 18 u)"

text \<open>
  A mock of the network for the repository \<open>acme/widgets\<close>: the tree lists \<open>README.md\<close>,
  the directory \<open>docs\<close>, \<open>docs/guide.md\<close> and \<open>img/logo.png\<close>; the download of
  \<open>docs/guide.md\<close> answers 404, every other request answers 200.
\<close>

definition acme_tree :: "tree_item list" where
  "acme_tree =
     [\<lparr>item_type = ''blob'', item_path = ''README.md''\<rparr>,
      \<lparr>item_type = ''tree'', item_path = ''docs''\<rparr>,
      \<lparr>item_type = ''blob'', item_path = ''docs/guide.md''\<rparr>,
      \<lparr>item_type = ''blob'', item_path = ''img/logo.png''\<rparr>]"

definition acme_net :: network where
  "acme_net url =
     (if url = ''https://raw.githubusercontent.com/acme/widgets/main/docs/guide.md''
      then \<lparr>status_code = 404, resp_text = ''404: Not Found'', json_default_branch = None,
            json_tree = None\<rparr>
      else \<lparr>status_code = 200, resp_text = ''# Widgets'', json_default_branch = Some ''main'',
            json_tree = Some acme_tree\<rparr>)"

text \<open>
  A mock in which the tree lists the single file \<open>README.md\<close> and every request answers
  200 with an empty text: the file \<open>README.md\<close> of the repository is empty.
\<close>

definition empty_readme_net :: network where
  "empty_readme_net url =
     \<lparr>status_code = 200, resp_text = [], json_default_branch = Some ''main'',
      json_tree = Some [\<lparr>item_type = ''blob'', item_path = ''README.md''\<rparr>]\<rparr>"

text \<open>
  The prompt that one round of the loop of \<open>summarize_markdown_files\<close> builds for a file.
\<close>

definition file_prompt :: "(string \<Rightarrow> string) \<Rightarrow> string list option \<Rightarrow> string \<Rightarrow> string \<Rightarrow> string" where
  "file_prompt py_repr image_files path content =
     build_prompt py_repr path (dirname path) (related_images_of image_files (dirname path))
       (truncate_content content)"

text \<open>
  The summaries the retry loop can store: the fallback text, or the stripped model output,
  followed by the image note when the file has related images.
\<close>

definition summary_form :: "bool \<Rightarrow> string \<Rightarrow> string \<Rightarrow> bool" where
  "summary_form has_images path s \<longleftrightarrow>
     s = fallback_summary path \<or> (\<exists>c. s = (if has_images then py_strip c @ IMAGE_NOTE else py_strip c))"

text \<open>
  The summary one round of the loop stores for a file, said in terms of the client: the
  output of the first attempt; when that attempt fails, the output of the second; when both
  fail, the fallback text.  An output is stripped, and followed by the image note when the
  file has related images.
\<close>

definition expected_summary :: "client \<Rightarrow> string list \<Rightarrow> string \<Rightarrow> string \<Rightarrow> bool \<Rightarrow> string" where
  "expected_summary cl log prompt path has_images =
     (case cl log prompt of
        Some c \<Rightarrow> if has_images then py_strip c @ IMAGE_NOTE else py_strip c
      | None \<Rightarrow>
          (case cl (log @ [prompt]) prompt of
             Some c \<Rightarrow> if has_images then py_strip c @ IMAGE_NOTE else py_strip c
           | None \<Rightarrow> fallback_summary path))"

text \<open>
  \<open>repr\<close> of a string of printable characters without quotes and backslashes; a client
  whose every call fails; a client whose every call succeeds; a client whose first and
  third calls succeed and whose other calls fail; three files.
\<close>

definition simple_repr :: "string \<Rightarrow> string" where
  "simple_repr s = [CHR 0x27] @ s @ [CHR 0x27]"

definition failing_client :: client where
  "failing_client log prompt = None"

definition succeeding_client :: client where
  "succeeding_client log prompt = Some ''A summary.''"

definition scripted_client :: client where
  "scripted_client log prompt =
     (if length log = 0 then Some ''  First summary. ''
      else if length log = 2 then Some ''Second summary.''
      else None)"

definition mixed_files :: "(string, string) pydict" where
  "mixed_files = [(''src/b.md'', ''# B''), (''docs/a.md'', ''# A''), (''README.md'', ''# Widgets'')]"

text \<open>
  The five categories of \<open>organize_content_for_html\<close>, and the category of a path as
  the heuristics are stated: the base name first, then the keywords of the directory.
\<close>

definition CATEGORIES :: "string list" where
  "CATEGORIES = [''README and Main Docs'', ''Documentation'', ''Guides and Tutorials'',
     ''API Reference'', ''Other Files'']"

definition category_of :: "string \<Rightarrow> string" where
  "category_of path =
     (if str_lower (basename path) = ''readme.md'' \<or> str_lower (basename path) = ''index.md''
      then ''README and Main Docs''
      else if str_contains (str_lower (dirname path)) ''doc'' \<or>
              str_contains (str_lower (dirname path)) ''guide''
      then ''Documentation''
      else if str_contains (str_lower (dirname path)) ''tutorial'' \<or>
              str_contains (str_lower (dirname path)) ''example''
      then ''Guides and Tutorials''
      else if str_contains (str_lower (dirname path)) ''api'' \<or>
              str_contains (str_lower (dirname path)) ''reference''
      then ''API Reference''
      else ''Other Files'')"

text \<open>
  The texts that open the date field, the branch field, the company field and the author
  field of the cover page, and a text with one slot after a label: the argument is placed once, right after the label, between
  two fixed texts.
\<close>

definition DATE_FIELD :: string where
  \<open>DATE_FIELD =
     ''<span class="label">Generated:</span>\<newline>                    <span class="value">''\<close>

definition BRANCH_FIELD :: string where
  \<open>BRANCH_FIELD =
     ''<span class="label">Branch:</span>\<newline>                    <span class="value">''\<close>

definition COMPANY_FIELD :: string where
  \<open>COMPANY_FIELD =
     ''<div class="company-branding">\<newline>                <h1 class="company-name">''\<close>

definition AUTHOR_FIELD :: string where
  \<open>AUTHOR_FIELD =
     ''<span class="label">Author:</span>\<newline>                    <span class="value">''\<close>

definition slot_after :: "string \<Rightarrow> (string \<Rightarrow> string) \<Rightarrow> bool" where
  "slot_after label f \<longleftrightarrow> (\<exists>pre post. \<forall>x. f x = pre @ label @ x @ post)"

text \<open>
  The link to a file in its section, the link that replaces a reference sentence of a
  summary, and the image element of a gallery entry; all three name the branch \<open>main\<close>.
\<close>

definition file_link :: "string \<Rightarrow> string \<Rightarrow> string \<Rightarrow> string" where
  \<open>file_link own repo_name file_path =
     ''<a href="https://github.com/'' @ own @ ''/'' @ repo_name @ ''/blob/main/'' @ file_path
     @ ''" target="_blank" class="file-link">'' @ file_path @ ''</a>''\<close>

definition reference_link :: "string \<Rightarrow> string \<Rightarrow> string \<Rightarrow> string \<Rightarrow> string" where
  \<open>reference_link own repo_name file_path file_name =
     ''For full details, refer to: <a href="https://github.com/'' @ own @ ''/'' @ repo_name
     @ ''/blob/main/'' @ file_path @ ''" target="_blank" class="file-link">'' @ file_name
     @ ''</a>''\<close>

definition image_tag :: "string \<Rightarrow> string \<Rightarrow> string \<Rightarrow> string" where
  \<open>image_tag own repo_name img_path =
     ''<img src="https://raw.githubusercontent.com/'' @ own @ ''/'' @ repo_name @ ''/main/''
     @ img_path @ ''" alt="'' @ basename img_path @ ''" class="gallery-image" />''\<close>

text \<open>
  Twenty-one summaries, the metadata of a repository fetched at \<open>develop\<close>, three files,
  and the summaries of a run in which the summary of \<open>README.md\<close> is the fallback text.
\<close>

definition many_summaries :: "(string, string) pydict" where
  "many_summaries =
     map (\<lambda>n. (''notes/n'' @ str_of_nat n @ ''.md'', ''A note.'')) [0..<20]
     @ [(''README.md'', ''The readme.'')]"

definition widgets_meta :: "(string, string) pydict" where
  "widgets_meta = [(''owner'', ''acme''), (''repo'', ''widgets''), (''branch'', ''develop'')]"

definition three_files :: "(string, string) pydict" where
  "three_files = [(''README.md'', ''# Widgets''), (''docs/guide.md'', ''# Guide''), (''src/notes.md'', ''# Notes'')]"

definition fallback_readme :: "(string, string) pydict" where
  "fallback_readme = [(''README.md'', fallback_summary ''README.md'')]"

section \<open>Lemmas on strings and dictionaries\<close>

lemma str_split_not_Nil: "str_split sep s \<noteq> []"
  by (induction sep s rule: str_split.induct) (auto split: list.splits)

lemma str_split_snoc_sep: "str_split [c] (s @ [c]) = str_split [c] s @ [[]]"
  by (induction s) (auto split: list.splits simp: str_split_not_Nil)

lemma segments_dropWhile:
  "filter (\<lambda>s. s \<noteq> []) (str_split [c] (dropWhile (\<lambda>x. x = c) s)) =
   filter (\<lambda>s. s \<noteq> []) (str_split [c] s)"
  by (induction s) (auto split: list.splits)

lemma segments_rstrip:
  "filter (\<lambda>s. s \<noteq> []) (str_split [c] (str_rstrip c s)) =
   filter (\<lambda>s. s \<noteq> []) (str_split [c] s)"
  unfolding str_rstrip_def
  by (induction s rule: rev_induct) (auto simp: str_split_snoc_sep)

lemma segments_strip:
  "filter (\<lambda>s. s \<noteq> []) (str_split [c] (str_strip c s)) =
   filter (\<lambda>s. s \<noteq> []) (str_split [c] s)"
  by (simp add: str_strip_def segments_rstrip segments_dropWhile)

lemma hd_split_nonempty: "s \<noteq> [] \<Longrightarrow> hd s \<noteq> c \<Longrightarrow> hd (str_split [c] s) \<noteq> []"
  by (cases s) (auto split: list.splits)

lemma last_split_nonempty: "s \<noteq> [] \<Longrightarrow> last s \<noteq> c \<Longrightarrow> last (str_split [c] s) \<noteq> []"
proof (induction s)
  case Nil
  then show ?case by simp
next
  case (Cons x xs)
  show ?case
  proof (cases "xs = []")
    case True
    with Cons.prems show ?thesis by simp
  next
    case False
    with Cons have "last (str_split [c] xs) \<noteq> []" by simp
    then show ?thesis using str_split_not_Nil[of "[c]" xs]
      by (cases "str_split [c] xs") (auto split: list.splits)
  qed
qed

lemma two_nonempty_ends:
  assumes "2 \<le> length xs" and "hd xs \<noteq> []" and "last xs \<noteq> []"
  shows "2 \<le> length (filter (\<lambda>s. s \<noteq> []) xs)"
proof -
  from assms(1) obtain x y zs where "xs = x # y # zs"
    by (cases xs; cases "tl xs") auto
  then obtain ys where xs: "xs = x # ys" "ys \<noteq> []" by blast
  with assms have "last ys \<noteq> []" by simp
  with xs have "last ys \<in> set (filter (\<lambda>s. s \<noteq> []) ys)" by simp
  then have "filter (\<lambda>s. s \<noteq> []) ys \<noteq> []" by (metis empty_iff empty_set)
  then have "1 \<le> length (filter (\<lambda>s. s \<noteq> []) ys)" by (simp add: Suc_leI)
  with xs assms show ?thesis by simp
qed

lemma rev_dropWhile_rev_prefix: "\<exists>zs. xs = rev (dropWhile P (rev xs)) @ zs"
proof -
  have "rev xs = takeWhile P (rev xs) @ dropWhile P (rev xs)" by simp
  then have "rev (rev xs) = rev (takeWhile P (rev xs) @ dropWhile P (rev xs))"
    by (rule arg_cong)
  then have "xs = rev (dropWhile P (rev xs)) @ rev (takeWhile P (rev xs))"
    by (simp only: rev_rev_ident rev_append)
  then show ?thesis by blast
qed

lemma strip_ends:
  assumes "str_strip c s \<noteq> []"
  shows "hd (str_strip c s) \<noteq> c" and "last (str_strip c s) \<noteq> c"
proof -
  define d where "d = dropWhile (\<lambda>x. x = c) s"
  define r where "r = dropWhile (\<lambda>x. x = c) (rev d)"
  have strip: "str_strip c s = rev r"
    by (simp add: str_strip_def str_rstrip_def r_def d_def)
  from assms have r: "r \<noteq> []" by (simp add: strip)
  then have "hd r \<noteq> c" unfolding r_def by (rule hd_dropWhile)
  then show "last (str_strip c s) \<noteq> c" using r by (simp add: strip last_rev)
  have d: "d \<noteq> []"
  proof
    assume "d = []"
    then have "r = []" by (simp add: r_def)
    with r show False by contradiction
  qed
  then have hd: "hd d \<noteq> c" unfolding d_def by (rule hd_dropWhile)
  obtain zs where "d = rev r @ zs"
    using rev_dropWhile_rev_prefix[of d "\<lambda>x. x = c"] unfolding r_def by blast
  with r have "hd (rev r) = hd d" by simp
  with hd show "hd (str_strip c s) \<noteq> c" by (simp add: strip)
qed

lemma parts_short:
  assumes "length (filter (\<lambda>s. s \<noteq> []) (str_split [c] p)) < 2"
  shows "length (str_split [c] (str_strip c p)) < 2"
proof (rule ccontr)
  assume "\<not> ?thesis"
  then have len: "2 \<le> length (str_split [c] (str_strip c p))" by simp
  then have ne: "str_strip c p \<noteq> []" by auto
  have "2 \<le> length (filter (\<lambda>s. s \<noteq> []) (str_split [c] (str_strip c p)))"
    using len hd_split_nonempty[OF ne strip_ends(1)[OF ne]]
      last_split_nonempty[OF ne strip_ends(2)[OF ne]]
    by (rule two_nonempty_ends)
  with assms show False by (simp add: segments_strip)
qed

lemma map_of_dict_set: "map_of (dict_set d k v) = (map_of d)(k \<mapsto> v)"
  by (induction d) auto

lemma dict_keys_dict_set:
  "dict_keys (dict_set d k v) =
     (if k \<in> set (dict_keys d) then dict_keys d else dict_keys d @ [k])"
  by (induction d) (force simp: dict_keys_def)+

lemma set_dict_keys_dict_set: "set (dict_keys (dict_set d k v)) = insert k (set (dict_keys d))"
  by (auto simp: dict_keys_dict_set)

lemma distinct_dict_set: "distinct (dict_keys d) \<Longrightarrow> distinct (dict_keys (dict_set d k v))"
  by (simp add: dict_keys_dict_set)

section \<open>Properties of repo_fetcher.py\<close>

lemma fst_fetch_item:
  "fst (fetch_item net own rep br it st) =
     (if stored_md net own rep br it
      then dict_set (fst st) (item_path it)
             (resp_text (net (raw_url own rep br (item_path it))))
      else fst st)"
  by (cases st)
     (simp add: fetch_item_def stored_md_def download_raw_file_def requests_get_def Let_def)

lemma map_of_fold_fetch_item:
  "map_of (fst (fold (fetch_item net own rep br) tree st)) k =
     (if \<exists>it \<in> set tree. stored_md net own rep br it \<and> item_path it = k
      then Some (resp_text (net (raw_url own rep br k)))
      else map_of (fst st) k)"
proof (induction tree arbitrary: st)
  case Nil
  show ?case by simp
next
  case (Cons it tree)
  show ?case
    by (auto simp: Cons.IH fst_fetch_item map_of_dict_set)
qed

text \<open>
  C1, as the code has it.  When the URL parses and the branch lookup and the tree listing
  succeed, \<open>fetch_repository_docs\<close> returns a result, and the keys of its Markdown
  dictionary are exactly the paths of the tree blobs that end in \<open>.md\<close> (in any case of
  letters) and whose download answered with status 200 and a non-empty text; each key maps
  to the text downloaded for it.
\<close>

theorem fetch_markdown_keys:
  assumes "parse_repo_url urlparse_path repo_url = Inr (own, rep)"
    and "get_repo_default_branch net log own rep = (Inr br, log1)"
    and "get_repo_tree net log1 own rep br = (Inr tree, log2)"
  shows "\<exists>r log3. fetch_repository_docs urlparse_path net log repo_url = (Inr r, log3) \<and>
           set (dict_keys (res_markdown_files r)) =
             {p. \<exists>it \<in> set tree. item_type it = ''blob'' \<and> item_path it = p \<and>
                   endswith (str_lower p) ''.md'' \<and>
                   status_code (net (raw_url own rep br p)) = 200 \<and>
                   resp_text (net (raw_url own rep br p)) \<noteq> []} \<and>
           (\<forall>p \<in> set (dict_keys (res_markdown_files r)).
              map_of (res_markdown_files r) p = Some (resp_text (net (raw_url own rep br p))))"
proof -
  obtain mds imgs log3
    where f: "fold (fetch_item net own rep br) tree ([], [], log2) = (mds, imgs, log3)"
    by (cases "fold (fetch_item net own rep br) tree ([], [], log2)") auto
  have m: "map_of mds k =
     (if \<exists>it \<in> set tree. stored_md net own rep br it \<and> item_path it = k
      then Some (resp_text (net (raw_url own rep br k))) else None)" for k
    using map_of_fold_fetch_item[of net own rep br tree "([], [], log2)" k] f by simp
  have keys: "set (dict_keys mds) =
      {p. \<exists>it \<in> set tree. stored_md net own rep br it \<and> item_path it = p}"
  proof -
    have "set (dict_keys mds) = dom (map_of mds)"
      by (simp add: dict_keys_def dom_map_of_conv_image_fst)
    also have "\<dots> = {p. \<exists>it \<in> set tree. stored_md net own rep br it \<and> item_path it = p}"
      by (auto simp: dom_def m split: if_splits)
    finally show ?thesis .
  qed
  have run: "fetch_repository_docs urlparse_path net log repo_url =
      (Inr \<lparr>res_markdown_files = mds, res_image_files = imgs, res_branch = br,
            res_repo = rep, res_owner = own\<rparr>, log3)"
    using assms f by (simp add: fetch_repository_docs_def)
  have k2: "set (dict_keys mds) =
      {p. \<exists>it \<in> set tree. item_type it = ''blob'' \<and> item_path it = p \<and>
            endswith (str_lower p) ''.md'' \<and>
            status_code (net (raw_url own rep br p)) = 200 \<and>
            resp_text (net (raw_url own rep br p)) \<noteq> []}"
    unfolding keys by (auto simp: stored_md_def)
  have vals: "\<forall>p \<in> set (dict_keys mds).
      map_of mds p = Some (resp_text (net (raw_url own rep br p)))"
    unfolding keys by (auto simp: m)
  show ?thesis using run k2 vals by simp
qed

theorem fetch_markdown_keys_witness:
  "parse_repo_url path_after_host ''https://github.com/acme/widgets'' = Inr (''acme'', ''widgets'') \<and>
   get_repo_default_branch acme_net [] ''acme'' ''widgets'' =
     (Inr ''main'', [''https://api.github.com/repos/acme/widgets'']) \<and>
   get_repo_tree acme_net [''https://api.github.com/repos/acme/widgets''] ''acme'' ''widgets'' ''main'' =
     (Inr acme_tree,
      [''https://api.github.com/repos/acme/widgets'',
       ''https://api.github.com/repos/acme/widgets/git/trees/main?recursive=1'']) \<and>
   (\<exists>r log3. fetch_repository_docs path_after_host acme_net [] ''https://github.com/acme/widgets'' =
        (Inr r, log3) \<and>
      set (dict_keys (res_markdown_files r)) =
        {p. \<exists>it \<in> set acme_tree. item_type it = ''blob'' \<and> item_path it = p \<and>
              endswith (str_lower p) ''.md'' \<and>
              status_code (acme_net (raw_url ''acme'' ''widgets'' ''main'' p)) = 200 \<and>
              resp_text (acme_net (raw_url ''acme'' ''widgets'' ''main'' p)) \<noteq> []} \<and>
      (\<forall>p \<in> set (dict_keys (res_markdown_files r)).
         map_of (res_markdown_files r) p =
           Some (resp_text (acme_net (raw_url ''acme'' ''widgets'' ''main'' p)))))"
proof -
  have h1: "parse_repo_url path_after_host ''https://github.com/acme/widgets'' =
      Inr (''acme'', ''widgets'')"
    by code_simp
  have h2: "get_repo_default_branch acme_net [] ''acme'' ''widgets'' =
      (Inr ''main'', [''https://api.github.com/repos/acme/widgets''])"
    by code_simp
  have h3: "get_repo_tree acme_net [''https://api.github.com/repos/acme/widgets''] ''acme''
      ''widgets'' ''main'' =
      (Inr acme_tree,
       [''https://api.github.com/repos/acme/widgets'',
        ''https://api.github.com/repos/acme/widgets/git/trees/main?recursive=1''])"
    by code_simp
  show ?thesis using h1 h2 h3 fetch_markdown_keys[OF h1 h2 h3] by blast
qed

text \<open>
  C1 as stated fails on an empty file: \<open>README.md\<close> is a listed blob and its download
  answers 200, but the text is empty and the file is not a key of the result.
\<close>

theorem fetch_markdown_keys_counterexample:
  "json_tree (empty_readme_net
       ''https://api.github.com/repos/acme/widgets/git/trees/main?recursive=1'') =
     Some [\<lparr>item_type = ''blob'', item_path = ''README.md''\<rparr>] \<and>
   endswith (str_lower ''README.md'') ''.md'' \<and>
   status_code (empty_readme_net (raw_url ''acme'' ''widgets'' ''main'' ''README.md'')) = 200 \<and>
   fetch_repository_docs path_after_host empty_readme_net [] ''https://github.com/acme/widgets'' =
     (Inr \<lparr>res_markdown_files = [], res_image_files = [], res_branch = ''main'',
           res_repo = ''widgets'', res_owner = ''acme''\<rparr>,
      [''https://api.github.com/repos/acme/widgets'',
       ''https://api.github.com/repos/acme/widgets/git/trees/main?recursive=1'',
       ''https://raw.githubusercontent.com/acme/widgets/main/README.md''])"
  by code_simp

text \<open>
  C2.  When the path of the parsed URL has fewer than two non-empty segments,
  \<open>fetch_repository_docs\<close> fails with \<open>ValueError\<close> and the request log is unchanged: no
  request has been made.
\<close>

theorem fetch_invalid_reference:
  assumes "urlparse_path repo_url = Inr p"
    and "length (filter (\<lambda>s. s \<noteq> []) (str_split ''/'' p)) < 2"
  shows "fetch_repository_docs urlparse_path net log repo_url = (Inl ValueError, log)"
  using assms parts_short[of "CHR ''/''" p]
  by (simp add: fetch_repository_docs_def parse_repo_url_def)

theorem fetch_invalid_reference_witness:
  "path_after_host ''https://github.com/acme/'' = Inr ''/acme/'' \<and>
   length (filter (\<lambda>s. s \<noteq> []) (str_split ''/'' ''/acme/'')) < 2 \<and>
   fetch_repository_docs path_after_host acme_net [] ''https://github.com/acme/'' =
     (Inl ValueError, [])"
proof -
  have h1: "path_after_host ''https://github.com/acme/'' = Inr ''/acme/''"
    by code_simp
  have h2: "length (filter (\<lambda>s. s \<noteq> []) (str_split ''/'' ''/acme/'')) < 2"
    by code_simp
  show ?thesis
    using h1 h2
      fetch_invalid_reference[of path_after_host "''https://github.com/acme/''" "''/acme/''"
        acme_net "[]"]
    by blast
qed

section \<open>Properties of ai_summarizer.py\<close>

lemma attempts_Some:
  "retry_count < max_retries \<Longrightarrow> cl log prompt = Some c \<Longrightarrow>
   summarize_attempts cl log prompt path has_images retry_count =
     (Some (if has_images then py_strip c @ IMAGE_NOTE else py_strip c), log @ [prompt])"
  by (subst summarize_attempts.simps) (simp add: Let_def)

lemma attempts_None_retry:
  "retry_count + 1 < max_retries \<Longrightarrow> cl log prompt = None \<Longrightarrow>
   summarize_attempts cl log prompt path has_images retry_count =
     summarize_attempts cl (log @ [prompt]) prompt path has_images (retry_count + 1)"
  by (subst summarize_attempts.simps) simp

lemma attempts_None_last:
  "retry_count < max_retries \<Longrightarrow> \<not> retry_count + 1 < max_retries \<Longrightarrow> cl log prompt = None \<Longrightarrow>
   summarize_attempts cl log prompt path has_images retry_count =
     (Some (fallback_summary path), log @ [prompt])"
  by (subst summarize_attempts.simps) simp

lemma summarize_attempts_result:
  "retry_count < max_retries \<Longrightarrow>
   \<exists>s log'. summarize_attempts cl log prompt path has_images retry_count = (Some s, log') \<and>
      summary_form has_images path s \<and> set log' = insert prompt (set log)"
proof (induction cl log prompt path has_images retry_count rule: summarize_attempts.induct)
  case (1 cl log prompt path has_images retry_count)
  show ?case
  proof (cases "cl log prompt")
    case (Some c)
    have "summary_form has_images path (if has_images then py_strip c @ IMAGE_NOTE else py_strip c)"
      unfolding summary_form_def by blast
    then show ?thesis
      using attempts_Some[of retry_count cl log prompt c path has_images] "1.prems" Some
      by simp
  next
    case None
    show ?thesis
    proof (cases "retry_count + 1 < max_retries")
      case True
      from "1.IH"[OF "1.prems" None True True] obtain s log' where
        "summarize_attempts cl (log @ [prompt]) prompt path has_images (retry_count + 1) = (Some s, log')"
        "summary_form has_images path s" "set log' = insert prompt (set (log @ [prompt]))"
        by blast
      then show ?thesis
        using attempts_None_retry[of retry_count cl log prompt path has_images] True None
        by simp
    next
      case False
      have "summary_form has_images path (fallback_summary path)"
        by (simp add: summary_form_def)
      then show ?thesis
        using attempts_None_last[of retry_count cl log prompt path has_images] "1.prems" False None
        by simp
    qed
  qed
qed

lemma summarize_file_result:
  "\<exists>s. fst (summarize_file cl py_repr image_files (path, content) st) = dict_set (fst st) path s \<and>
       summary_form (related_images_of image_files (dirname path) \<noteq> []) path s \<and>
       set (snd (summarize_file cl py_repr image_files (path, content) st)) =
         insert (file_prompt py_repr image_files path content) (set (snd st))"
proof -
  obtain summaries log where st: "st = (summaries, log)" by (cases st)
  have "0 < max_retries" by (simp add: max_retries_def)
  from summarize_attempts_result[OF this, of cl log "file_prompt py_repr image_files path content" path
      "related_images_of image_files (dirname path) \<noteq> []"]
  obtain s log' where
    "summarize_attempts cl log (file_prompt py_repr image_files path content) path
       (related_images_of image_files (dirname path) \<noteq> []) 0 = (Some s, log')"
    "summary_form (related_images_of image_files (dirname path) \<noteq> []) path s"
    "set log' = insert (file_prompt py_repr image_files path content) (set log)"
    by blast
  then show ?thesis
    by (auto simp add: st summarize_file_def file_prompt_def Let_def)
qed

lemma dict_keys_simps: "dict_keys [] = []" "dict_keys ((k, v) # d) = k # dict_keys d"
  by (simp_all add: dict_keys_def)

lemma map_of_summarize_file_other:
  "p \<noteq> path \<Longrightarrow> map_of (fst (summarize_file cl py_repr image_files (path, content) st)) p = map_of (fst st) p"
  using summarize_file_result[of cl py_repr image_files path content st]
  by (auto simp: map_of_dict_set)

lemma keys_summarize_file:
  "dict_keys (fst (summarize_file cl py_repr image_files (path, content) st)) =
     (if path \<in> set (dict_keys (fst st)) then dict_keys (fst st) else dict_keys (fst st) @ [path])"
  using summarize_file_result[of cl py_repr image_files path content st]
  by (auto simp: dict_keys_dict_set)

lemma keys_fold_summarize_file:
  "set (dict_keys (fst (fold (summarize_file cl py_repr image_files) md st))) =
     set (dict_keys (fst st)) \<union> set (dict_keys md)"
proof (induction md arbitrary: st)
  case Nil
  show ?case by (simp add: dict_keys_simps)
next
  case (Cons e md)
  obtain path content where e: "e = (path, content)" by (cases e)
  show ?case
    by (auto simp: Cons.IH e keys_summarize_file dict_keys_simps)
qed

lemma distinct_fold_summarize_file:
  "distinct (dict_keys (fst st)) \<Longrightarrow>
   distinct (dict_keys (fst (fold (summarize_file cl py_repr image_files) md st)))"
proof (induction md arbitrary: st)
  case Nil
  then show ?case by simp
next
  case (Cons e md)
  obtain path content where e: "e = (path, content)" by (cases e)
  have "distinct (dict_keys (fst (summarize_file cl py_repr image_files (path, content) st)))"
    using Cons.prems by (simp add: keys_summarize_file)
  then show ?case using Cons.IH by (simp add: e)
qed

lemma keys_list_fold_summarize_file:
  "distinct (dict_keys md) \<Longrightarrow> set (dict_keys (fst st)) \<inter> set (dict_keys md) = {} \<Longrightarrow>
   dict_keys (fst (fold (summarize_file cl py_repr image_files) md st)) =
     dict_keys (fst st) @ dict_keys md"
proof (induction md arbitrary: st)
  case Nil
  show ?case by (simp add: dict_keys_simps)
next
  case (Cons e md)
  obtain path content where e: "e = (path, content)" by (cases e)
  let ?st = "summarize_file cl py_repr image_files (path, content) st"
  from Cons.prems have k: "dict_keys (fst ?st) = dict_keys (fst st) @ [path]"
    by (auto simp: keys_summarize_file e dict_keys_simps)
  have "dict_keys (fst (fold (summarize_file cl py_repr image_files) md ?st)) =
      dict_keys (fst ?st) @ dict_keys md"
  proof (rule Cons.IH)
    show "distinct (dict_keys md)" using Cons.prems by (simp add: e dict_keys_simps)
    show "set (dict_keys (fst ?st)) \<inter> set (dict_keys md) = {}"
      using Cons.prems unfolding k by (auto simp: e dict_keys_simps)
  qed
  then show ?case by (simp add: e k dict_keys_simps)
qed


lemma map_of_fold_summarize_file_other:
  "p \<notin> set (dict_keys md) \<Longrightarrow>
   map_of (fst (fold (summarize_file cl py_repr image_files) md st)) p = map_of (fst st) p"
proof (induction md arbitrary: st)
  case Nil
  show ?case by simp
next
  case (Cons e md)
  obtain path content where e: "e = (path, content)" by (cases e)
  from Cons.prems have "p \<noteq> path" "p \<notin> set (dict_keys md)" by (auto simp: e dict_keys_simps)
  then show ?case
    by (simp add: e Cons.IH map_of_summarize_file_other)
qed

lemma summarize_attempts_expected:
  "fst (summarize_attempts cl log prompt path has_images 0) =
     Some (expected_summary cl log prompt path has_images)"
proof (cases "cl log prompt")
  case (Some c)
  have "0 < max_retries" by (simp add: max_retries_def)
  with attempts_Some[of 0 cl log prompt c path has_images] Some show ?thesis
    by (simp add: expected_summary_def)
next
  case None
  have r: "0 + 1 < max_retries" by (simp add: max_retries_def)
  show ?thesis
  proof (cases "cl (log @ [prompt]) prompt")
    case (Some c)
    with attempts_None_retry[of 0 cl log prompt path has_images] None r
      attempts_Some[of "0 + 1" cl "log @ [prompt]" prompt c path has_images]
    show ?thesis by (simp add: expected_summary_def)
  next
    case n2: None
    have l: "\<not> (0 + 1) + 1 < max_retries" by (simp add: max_retries_def)
    from attempts_None_retry[of 0 cl log prompt path has_images] None r
      attempts_None_last[of "0 + 1" cl "log @ [prompt]" prompt path has_images] n2 l
    show ?thesis by (simp add: expected_summary_def)
  qed
qed

lemma summarize_file_expected:
  "fst (summarize_file cl py_repr image_files (path, content) st) =
     dict_set (fst st) path
       (expected_summary cl (snd st) (file_prompt py_repr image_files path content) path
          (related_images_of image_files (dirname path) \<noteq> []))"
proof -
  obtain summaries log where st: "st = (summaries, log)" by (cases st)
  from summarize_attempts_expected[of cl log "file_prompt py_repr image_files path content" path
      "related_images_of image_files (dirname path) \<noteq> []"]
  show ?thesis
    by (cases "summarize_attempts cl log (file_prompt py_repr image_files path content) path
          (related_images_of image_files (dirname path) \<noteq> []) 0")
       (auto simp: st summarize_file_def file_prompt_def Let_def)
qed

lemma summarize_split:
  "summarize_markdown_files cl py_repr (before @ (path, content) # after) image_files =
     fold (summarize_file cl py_repr image_files) after
       (summarize_file cl py_repr image_files (path, content)
          (summarize_markdown_files cl py_repr before image_files))"
  by (simp add: summarize_markdown_files_def)

lemma summarize_value:
  assumes "markdown_files = before @ (path, content) # after"
    and "path \<notin> set (dict_keys after)"
  shows "map_of (fst (summarize_markdown_files cl py_repr markdown_files image_files)) path =
     Some (expected_summary cl (snd (summarize_markdown_files cl py_repr before image_files))
             (file_prompt py_repr image_files path content) path
             (related_images_of image_files (dirname path) \<noteq> []))"
  unfolding assms(1) summarize_split
  by (simp add: map_of_fold_summarize_file_other[OF assms(2)] summarize_file_expected
      map_of_dict_set)

text \<open>
  C3.  Whatever the client does, the summaries returned have the keys of the input: the
  same set of keys, each key once, and in the order of the input when the input is a
  dictionary (its keys are distinct).  The summary stored for a file (at its last entry in
  the input) is the stripped output of the first attempt that succeeds, followed by the
  image note when the file has related images, and the fallback text of its path when
  both attempts fail; the attempts are the calls of the client made after the prompts of
  the files before it.
\<close>

theorem summarize_keys:
  "set (dict_keys (fst (summarize_markdown_files cl py_repr markdown_files image_files))) =
     set (dict_keys markdown_files) \<and>
   distinct (dict_keys (fst (summarize_markdown_files cl py_repr markdown_files image_files))) \<and>
   (distinct (dict_keys markdown_files) \<longrightarrow>
      dict_keys (fst (summarize_markdown_files cl py_repr markdown_files image_files)) =
        dict_keys markdown_files) \<and>
   (\<forall>before path content after.
      markdown_files = before @ (path, content) # after \<and> path \<notin> set (dict_keys after) \<longrightarrow>
      map_of (fst (summarize_markdown_files cl py_repr markdown_files image_files)) path =
        Some (expected_summary cl
                (snd (summarize_markdown_files cl py_repr before image_files))
                (file_prompt py_repr image_files path content) path
                (related_images_of image_files (dirname path) \<noteq> [])))"
proof -
  let ?out = "fst (summarize_markdown_files cl py_repr markdown_files image_files)"
  have k: "set (dict_keys ?out) = set (dict_keys markdown_files)"
    by (simp add: summarize_markdown_files_def keys_fold_summarize_file dict_keys_simps)
  have d: "distinct (dict_keys ?out)"
    unfolding summarize_markdown_files_def
    by (rule distinct_fold_summarize_file) (simp add: dict_keys_simps)
  have l: "dict_keys ?out = dict_keys markdown_files" if "distinct (dict_keys markdown_files)"
    using keys_list_fold_summarize_file[OF that, of "([], [])" cl py_repr image_files]
    by (simp add: summarize_markdown_files_def dict_keys_simps)
  have v: "map_of ?out path =
        Some (expected_summary cl
                (snd (summarize_markdown_files cl py_repr before image_files))
                (file_prompt py_repr image_files path content) path
                (related_images_of image_files (dirname path) \<noteq> []))"
    if "markdown_files = before @ (path, content) # after \<and> path \<notin> set (dict_keys after)"
    for before path content after
    using that summarize_value[of markdown_files before path content after] by blast
  show ?thesis using k d l v by blast
qed

theorem summarize_keys_witness:
  "distinct (dict_keys mixed_files) \<and>
   mixed_files = [(''src/b.md'', ''# B'')] @ (''docs/a.md'', ''# A'') # [(''README.md'', ''# Widgets'')] \<and>
   dict_keys (fst (summarize_markdown_files scripted_client simple_repr mixed_files
      (Some [''docs/pic.png'']))) = [''src/b.md'', ''docs/a.md'', ''README.md''] \<and>
   map_of (fst (summarize_markdown_files scripted_client simple_repr mixed_files
      (Some [''docs/pic.png'']))) ''src/b.md'' = Some ''First summary.'' \<and>
   map_of (fst (summarize_markdown_files scripted_client simple_repr mixed_files
      (Some [''docs/pic.png'']))) ''docs/a.md'' = Some (''Second summary.'' @ IMAGE_NOTE) \<and>
   map_of (fst (summarize_markdown_files scripted_client simple_repr mixed_files
      (Some [''docs/pic.png'']))) ''README.md'' =
     Some ''Documentation file: README.md. For full details, refer to: [README.md](README.md)''"
proof -
  let ?imgs = "Some [''docs/pic.png'']"
  note t = summarize_keys[of scripted_client simple_repr mixed_files ?imgs]
  have h: "distinct (dict_keys mixed_files)" by code_simp
  have k: "dict_keys mixed_files = [''src/b.md'', ''docs/a.md'', ''README.md'']" by code_simp
  have s1: "mixed_files = [] @ (''src/b.md'', ''# B'') # [(''docs/a.md'', ''# A''), (''README.md'', ''# Widgets'')]
      \<and> ''src/b.md'' \<notin> set (dict_keys [(''docs/a.md'', ''# A''), (''README.md'', ''# Widgets'')])"
    by code_simp
  have s2: "mixed_files = [(''src/b.md'', ''# B'')] @ (''docs/a.md'', ''# A'') # [(''README.md'', ''# Widgets'')]
      \<and> ''docs/a.md'' \<notin> set (dict_keys [(''README.md'', ''# Widgets'')])"
    by code_simp
  have s3: "mixed_files = [(''src/b.md'', ''# B''), (''docs/a.md'', ''# A'')] @ (''README.md'', ''# Widgets'') # []
      \<and> ''README.md'' \<notin> set (dict_keys ([] :: (string, string) pydict))"
    by code_simp
  have e1: "expected_summary scripted_client
      (snd (summarize_markdown_files scripted_client simple_repr [] ?imgs))
      (file_prompt simple_repr ?imgs ''src/b.md'' ''# B'') ''src/b.md''
      (related_images_of ?imgs (dirname ''src/b.md'') \<noteq> []) = ''First summary.''"
    by code_simp
  have e2: "expected_summary scripted_client
      (snd (summarize_markdown_files scripted_client simple_repr [(''src/b.md'', ''# B'')] ?imgs))
      (file_prompt simple_repr ?imgs ''docs/a.md'' ''# A'') ''docs/a.md''
      (related_images_of ?imgs (dirname ''docs/a.md'') \<noteq> []) = ''Second summary.'' @ IMAGE_NOTE"
    by code_simp
  have e3: "expected_summary scripted_client
      (snd (summarize_markdown_files scripted_client simple_repr
              [(''src/b.md'', ''# B''), (''docs/a.md'', ''# A'')] ?imgs))
      (file_prompt simple_repr ?imgs ''README.md'' ''# Widgets'') ''README.md''
      (related_images_of ?imgs (dirname ''README.md'') \<noteq> []) =
      ''Documentation file: README.md. For full details, refer to: [README.md](README.md)''"
    by code_simp
  from t s1 e1 have v1: "map_of (fst (summarize_markdown_files scripted_client simple_repr mixed_files ?imgs))
      ''src/b.md'' = Some ''First summary.''"
    by metis
  from t s2 e2 have v2: "map_of (fst (summarize_markdown_files scripted_client simple_repr mixed_files ?imgs))
      ''docs/a.md'' = Some (''Second summary.'' @ IMAGE_NOTE)"
    by metis
  from t s3 e3 have v3: "map_of (fst (summarize_markdown_files scripted_client simple_repr mixed_files ?imgs))
      ''README.md'' =
      Some ''Documentation file: README.md. For full details, refer to: [README.md](README.md)''"
    by metis
  from t h k have v0: "dict_keys (fst (summarize_markdown_files scripted_client simple_repr mixed_files ?imgs))
      = [''src/b.md'', ''docs/a.md'', ''README.md'']"
    by simp
  show ?thesis using h s2 v0 v1 v2 v3 by blast
qed



text \<open>
  C5.  For a file with a related image the summary ends with the image note when the call
  succeeds; when every attempt fails, the summary stored for the same file is the fallback
  text, which does not end with the image note.
\<close>

theorem fallback_omits_image_note:
  "fst (summarize_markdown_files succeeding_client simple_repr [(''docs/a.md'', ''# A'')]
          (Some [''docs/pic.png''])) =
     [(''docs/a.md'', ''A summary.'' @ IMAGE_NOTE)] \<and>
   related_images_of (Some [''docs/pic.png'']) (dirname ''docs/a.md'') = [''docs/pic.png''] \<and>
   fst (summarize_markdown_files failing_client simple_repr [(''docs/a.md'', ''# A'')]
          (Some [''docs/pic.png''])) =
     [(''docs/a.md'', fallback_summary ''docs/a.md'')] \<and>
   \<not> endswith (fallback_summary ''docs/a.md'') IMAGE_NOTE"
  by code_simp

text \<open>
  C9.  For a file at the root of the repository every image of the image list is related,
  and the summary ends with the image note when the call succeeds; when every attempt
  fails, the summary stored is the fallback text, which does not end with the image note.
\<close>

theorem root_file_fallback_omits_image_note:
  "dirname ''README.md'' = [] \<and>
   (\<forall>imgs. related_images_of (Some imgs) (dirname ''README.md'') = imgs) \<and>
   fst (summarize_markdown_files succeeding_client simple_repr [(''README.md'', ''# Widgets'')]
          (Some [''img/logo.png''])) =
     [(''README.md'', ''A summary.'' @ IMAGE_NOTE)] \<and>
   fst (summarize_markdown_files failing_client simple_repr [(''README.md'', ''# Widgets'')]
          (Some [''img/logo.png''])) =
     [(''README.md'', fallback_summary ''README.md'')] \<and>
   \<not> endswith (fallback_summary ''README.md'') IMAGE_NOTE"
proof -
  have d: "dirname ''README.md'' = []" by code_simp
  have r: "related_images_of (Some imgs) (dirname ''README.md'') = imgs" for imgs
    unfolding d by (simp add: related_images_of_def startswith_def)
  have e: "fst (summarize_markdown_files succeeding_client simple_repr
          [(''README.md'', ''# Widgets'')] (Some [''img/logo.png''])) =
       [(''README.md'', ''A summary.'' @ IMAGE_NOTE)]"
    "fst (summarize_markdown_files failing_client simple_repr [(''README.md'', ''# Widgets'')]
          (Some [''img/logo.png''])) =
     [(''README.md'', fallback_summary ''README.md'')]"
    "\<not> endswith (fallback_summary ''README.md'') IMAGE_NOTE"
    by code_simp+
  show ?thesis using d r e by blast
qed

section \<open>Properties of html_builder.py\<close>

lemma category_of_in: "category_of p \<in> set CATEGORIES"
  by (simp add: category_of_def CATEGORIES_def)

lemma organize_step_category:
  "organize_step summaries path organized =
     put_in_category organized (category_of path) path (dict_get summaries path [])"
  by (simp add: organize_step_def category_of_def Let_def)

lemma dict_get_dict_set:
  "dict_get (dict_set d k v) k' dflt = (if k' = k then v else dict_get d k' dflt)"
  by (simp add: dict_get_def map_of_dict_set)

lemma keys_put_in_category:
  "c \<in> set (dict_keys organized) \<Longrightarrow> dict_keys (put_in_category organized c p v) = dict_keys organized"
  by (simp add: put_in_category_def dict_keys_dict_set)

lemma get_put_in_category:
  "dict_get (put_in_category organized c p v) c' [] =
     (if c' = c then dict_set (dict_get organized c []) p v else dict_get organized c' [])"
  by (simp add: put_in_category_def dict_get_dict_set)

lemma fold_organize_step:
  "dict_keys organized = CATEGORIES \<Longrightarrow>
   dict_keys (fold (organize_step summaries) ks organized) = CATEGORIES \<and>
   (\<forall>c p. map_of (dict_get (fold (organize_step summaries) ks organized) c []) p =
      (if p \<in> set ks \<and> category_of p = c then Some (dict_get summaries p [])
       else map_of (dict_get organized c []) p))"
proof (induction ks arbitrary: organized)
  case Nil
  then show ?case by simp
next
  case (Cons k ks)
  let ?org = "organize_step summaries k organized"
  have keys: "dict_keys ?org = CATEGORIES"
    using Cons.prems category_of_in[of k]
    by (simp add: organize_step_category keys_put_in_category)
  have get: "map_of (dict_get ?org c []) p =
      (if p = k \<and> category_of p = c then Some (dict_get summaries p [])
       else map_of (dict_get organized c []) p)" for c p
    by (auto simp add: organize_step_category get_put_in_category map_of_dict_set)
  from Cons.IH[OF keys] show ?case
    by (auto simp: get)
qed

lemma organize_content_for_html_map:
  "dict_keys (organize_content_for_html mds summaries) = CATEGORIES \<and>
   (\<forall>c p. map_of (dict_get (organize_content_for_html mds summaries) c []) p =
      (if p \<in> set (dict_keys mds) \<and> category_of p = c then Some (dict_get summaries p [])
       else None))"
proof -
  let ?init = "[(''README and Main Docs'', []), (''Documentation'', []), (''Guides and Tutorials'', []),
        (''API Reference'', []), (''Other Files'', [])] :: (string, (string, string) pydict) pydict"
  have k: "dict_keys ?init = CATEGORIES" by (simp add: dict_keys_def CATEGORIES_def)
  have e: "map_of (dict_get ?init c []) p = None" for c p
    by (simp add: dict_get_def)
  from fold_organize_step[OF k, of summaries "dict_keys mds"] show ?thesis
    unfolding organize_content_for_html_def by (simp add: e)
qed

text \<open>
  C6, as the code has it.  When the mapping of Markdown files is given and not empty and
  there are more than 20 summaries, the content is organized into the five categories: each
  file of the mapping is in the category the heuristics give it and in no other, with its
  summary (or the empty text when it has none), and the categories hold no other paths.
  With no mapping, an empty mapping or at most 20 summaries, all summaries are under the
  single category \<open>Documentation\<close>.
\<close>

theorem organize_by_category:
  "(\<forall>mds. markdown_files = Some mds \<and> mds \<noteq> [] \<and> length summaries > 20 \<longrightarrow>
      choose_organized_content summaries markdown_files = organize_content_for_html mds summaries \<and>
      dict_keys (organize_content_for_html mds summaries) = CATEGORIES \<and>
      (\<forall>p \<in> set (dict_keys mds). \<forall>c \<in> set CATEGORIES.
         (p \<in> set (dict_keys (dict_get (organize_content_for_html mds summaries) c [])) \<longleftrightarrow>
            c = category_of p) \<and>
         map_of (dict_get (organize_content_for_html mds summaries) (category_of p) []) p =
           Some (dict_get summaries p [])) \<and>
      (\<forall>c \<in> set CATEGORIES.
         set (dict_keys (dict_get (organize_content_for_html mds summaries) c [])) \<subseteq>
           set (dict_keys mds))) \<and>
   (markdown_files = None \<or> markdown_files = Some [] \<or> length summaries \<le> 20 \<longrightarrow>
      choose_organized_content summaries markdown_files = [(''Documentation'', summaries)])"
proof (intro conjI allI impI)
  fix mds
  assume a: "markdown_files = Some mds \<and> mds \<noteq> [] \<and> length summaries > 20"
  let ?org = "organize_content_for_html mds summaries"
  note m = organize_content_for_html_map[of mds summaries]
  have keys: "set (dict_keys (dict_get ?org c [])) = {p \<in> set (dict_keys mds). category_of p = c}" for c
  proof -
    have "set (dict_keys (dict_get ?org c [])) = dom (map_of (dict_get ?org c []))"
      by (simp add: dict_keys_def dom_map_of_conv_image_fst)
    also have "\<dots> = {p \<in> set (dict_keys mds). category_of p = c}"
      using m by (auto simp: dom_def split: if_splits)
    finally show ?thesis .
  qed
  show "choose_organized_content summaries markdown_files = ?org"
    using a by (simp add: choose_organized_content_def)
  show "dict_keys ?org = CATEGORIES" using m by simp
  show "\<forall>p \<in> set (dict_keys mds). \<forall>c \<in> set CATEGORIES.
         (p \<in> set (dict_keys (dict_get ?org c [])) \<longleftrightarrow> c = category_of p) \<and>
         map_of (dict_get ?org (category_of p) []) p = Some (dict_get summaries p [])"
    using m by (auto simp: keys)
  show "\<forall>c \<in> set CATEGORIES. set (dict_keys (dict_get ?org c [])) \<subseteq> set (dict_keys mds)"
    by (auto simp: keys)
next
  assume "markdown_files = None \<or> markdown_files = Some [] \<or> length summaries \<le> 20"
  then show "choose_organized_content summaries markdown_files = [(''Documentation'', summaries)]"
    by (auto simp: choose_organized_content_def split: option.splits)
qed

theorem organize_by_category_witness:
  "three_files \<noteq> [] \<and> length many_summaries > 20 \<and>
   choose_organized_content many_summaries (Some three_files) =
     [(''README and Main Docs'', [(''README.md'', ''The readme.'')]),
      (''Documentation'', [(''docs/guide.md'', [])]),
      (''Guides and Tutorials'', []),
      (''API Reference'', []),
      (''Other Files'', [(''src/notes.md'', [])])] \<and>
   dict_keys (organize_content_for_html three_files many_summaries) = CATEGORIES \<and>
   choose_organized_content many_summaries None = [(''Documentation'', many_summaries)]"
proof -
  have h: "three_files \<noteq> []" "length many_summaries > 20" by code_simp+
  have e: "organize_content_for_html three_files many_summaries =
     [(''README and Main Docs'', [(''README.md'', ''The readme.'')]),
      (''Documentation'', [(''docs/guide.md'', [])]),
      (''Guides and Tutorials'', []),
      (''API Reference'', []),
      (''Other Files'', [(''src/notes.md'', [])])]"
    by code_simp
  show ?thesis
    using h e organize_by_category[of "Some three_files" many_summaries]
      organize_by_category[of None many_summaries]
    by simp
qed

text \<open>
  C6 as stated fails for a mapping that is given but empty: with 21 summaries, one of them
  for \<open>README.md\<close>, the summaries are not organized by category but all placed under
  \<open>Documentation\<close>.
\<close>

theorem organize_by_category_counterexample:
  "length many_summaries > 20 \<and>
   (''README.md'', ''The readme.'') \<in> set many_summaries \<and>
   category_of ''README.md'' = ''README and Main Docs'' \<and>
   choose_organized_content many_summaries (Some []) = [(''Documentation'', many_summaries)]"
  by code_simp

lemma slot_after_here: "label = l1 @ l2 \<Longrightarrow> slot_after label (\<lambda>x. l1 @ l2 @ x @ c)"
  unfolding slot_after_def by (rule exI[of _ "[]"], rule exI[of _ c]) simp

lemma slot_after_prepend: "slot_after label f \<Longrightarrow> slot_after label (\<lambda>x. c @ f x)"
proof -
  assume "slot_after label f"
  then obtain pre post where "\<forall>x. f x = pre @ label @ x @ post"
    unfolding slot_after_def by blast
  then have "\<forall>x. c @ f x = (c @ pre) @ label @ x @ post" by simp
  then show ?thesis unfolding slot_after_def by blast
qed

lemma slot_after_append: "slot_after label f \<Longrightarrow> slot_after label (\<lambda>x. f x @ c)"
proof -
  assume "slot_after label f"
  then obtain pre post where "\<forall>x. f x = pre @ label @ x @ post"
    unfolding slot_after_def by blast
  then have "\<forall>x. f x @ c = pre @ label @ x @ (post @ c)" by simp
  then show ?thesis unfolding slot_after_def by blast
qed

lemma cover_page_date_field:
  "slot_after DATE_FIELD
     (\<lambda>d. cover_page company repo_name github_url author d branch_name)"
  unfolding cover_page_def
  by (intro slot_after_here slot_after_prepend) (simp add: DATE_FIELD_def)

lemma cover_page_branch_field:
  "slot_after BRANCH_FIELD
     (\<lambda>b. cover_page company repo_name github_url author current_date b)"
  unfolding cover_page_def
  by (intro slot_after_here slot_after_prepend) (simp add: BRANCH_FIELD_def)

lemma generate_eq:
  "generate_onboarding_html current_date css summaries repo_meta author company markdown_files image_files =
     html_head (dict_get repo_meta ''repo'' ''Repository'') css
     @ cover_page company (dict_get repo_meta ''repo'' ''Repository'')
         (''https://github.com/'' @ dict_get repo_meta ''owner'' ''Unknown'' @ ''/'' @ dict_get repo_meta ''repo'' ''Repository'')
         author current_date (dict_get repo_meta ''branch'' ''main'')
     @ toc_page (length summaries)
         (fst (fold (add_category (length (choose_organized_content summaries markdown_files))
                 (dict_get repo_meta ''owner'' ''Unknown'') (dict_get repo_meta ''repo'' ''Repository''))
               (choose_organized_content summaries markdown_files) ([], [], 1)))
     @ content_pages
         (fst (snd (fold (add_category (length (choose_organized_content summaries markdown_files))
                 (dict_get repo_meta ''owner'' ''Unknown'') (dict_get repo_meta ''repo'' ''Repository''))
               (choose_organized_content summaries markdown_files) ([], [], 1))))
     @ gallery_part (create_image_gallery_section image_files
          (dict_get repo_meta ''owner'' ''Unknown'') (dict_get repo_meta ''repo'' ''Repository''))
     @ document_footer
         (''https://github.com/'' @ dict_get repo_meta ''owner'' ''Unknown'' @ ''/'' @ dict_get repo_meta ''repo'' ''Repository'')"
  by (simp add: generate_onboarding_html_def html_template_def Let_def split: prod.splits)

text \<open>
  C8.  The page is a function of its arguments and of the current date alone, and the date
  is placed at one position, the date field of the cover page: there are two texts, the
  same for every date, between which the opening of the field and the date stand.
\<close>

theorem html_date_stamp:
  "\<exists>pre post. \<forall>current_date.
     generate_onboarding_html current_date css summaries repo_meta author company markdown_files
       image_files = pre @ DATE_FIELD @ current_date @ post"
proof -
  have "slot_after DATE_FIELD
     (\<lambda>d. generate_onboarding_html d css summaries repo_meta author company
        markdown_files image_files)"
    unfolding generate_eq
    by (intro slot_after_prepend slot_after_append cover_page_date_field)
  then show ?thesis unfolding slot_after_def .
qed

lemma contains_mid: "str_contains (a @ x @ b) x"
  by (simp add: str_contains_def)

lemma contains_trans: "str_contains s t \<Longrightarrow> str_contains t u \<Longrightarrow> str_contains s u"
  unfolding str_contains_def by (rule sublist_order.order.trans)

lemma contains_prepend: "str_contains s x \<Longrightarrow> str_contains (a @ s) x"
  using contains_trans[of "a @ s" s x] contains_mid[of a s "[]"] by simp

lemma contains_append: "str_contains s x \<Longrightarrow> str_contains (s @ b) x"
  using contains_trans[of "s @ b" s x] contains_mid[of "[]" s b] by simp

lemma contains_concat: "x \<in> set xs \<Longrightarrow> str_contains (concat xs) x"
proof -
  assume "x \<in> set xs"
  then obtain ys zs where "xs = ys @ x # zs" by (meson split_list)
  then have "concat xs = concat ys @ x @ concat zs" by simp
  then show ?thesis by (simp add: contains_mid)
qed

lemma section_contains_link:
  "str_contains (create_file_section file_path summary section_id image_files own repo_name)
     (file_link own repo_name file_path)"
proof -
  have "\<exists>a b. create_file_section file_path summary section_id image_files own repo_name =
      a @ file_link own repo_name file_path @ b"
    unfolding create_file_section_def file_link_def file_url_of_def Let_def
    apply (rule exI[of _ "''\<newline>        <div class=\"section\" id=\"'' @ section_id
        @ ''\">\<newline>            <h2 class=\"section-title\">'' @ display_name_of file_path
        @ ''</h2>\<newline>            <div class=\"section-path\">'' @ ICON_FOLDER @ '' ''"])
    apply (rule exI[of _ "''</div>\<newline>            <div class=\"section-content\">\<newline>                ''
        @ format_summary_content summary own repo_name
        @ ''\<newline>            </div>\<newline>        </div>\<newline>    ''"])
    by simp
  then show ?thesis using contains_mid by metis
qed

lemma gallery_item_contains_tag:
  "str_contains (gallery_item own repo_name img_path) (image_tag own repo_name img_path)"
proof -
  have "\<exists>a b. gallery_item own repo_name img_path = a @ image_tag own repo_name img_path @ b"
    unfolding gallery_item_def image_tag_def image_url_of_def Let_def
    apply (rule exI[of _ "''\<newline>                <div class=\"gallery-item\">\<newline>                    ''"])
    apply (rule exI[of _ "''\<newline>                    <div class=\"gallery-caption\">\<newline>                        <strong>''
        @ basename img_path @ ''</strong><br>\<newline>                        <small>'' @ ICON_FOLDER
        @ '' '' @ img_path @ ''</small>\<newline>                    </div>\<newline>                </div>\<newline>            ''"])
    by simp
  then show ?thesis using contains_mid by metis
qed

lemma sections_add_file_entry:
  "fst (snd (add_file_entry own repo_name (p, s) st)) =
     fst (snd st) @ [create_file_section p s (''section-'' @ str_of_nat (snd (snd st))) None own repo_name]"
  by (cases st) (simp add: add_file_entry_def Let_def)

lemma sections_fold_files_mono:
  "set (fst (snd st)) \<subseteq> set (fst (snd (fold (add_file_entry own repo_name) files st)))"
proof (induction files arbitrary: st)
  case Nil
  show ?case by simp
next
  case (Cons e files)
  obtain p s where e: "e = (p, s)" by (cases e)
  have "set (fst (snd st)) \<subseteq> set (fst (snd (add_file_entry own repo_name (p, s) st)))"
    by (auto simp: sections_add_file_entry)
  also have "\<dots> \<subseteq> set (fst (snd (fold (add_file_entry own repo_name) files
      (add_file_entry own repo_name (p, s) st))))"
    by (rule Cons.IH)
  finally show ?case by (simp add: e)
qed

lemma sections_fold_files:
  "(p, s) \<in> set files \<Longrightarrow>
   \<exists>sid. create_file_section p s sid None own repo_name
     \<in> set (fst (snd (fold (add_file_entry own repo_name) files st)))"
proof (induction files arbitrary: st)
  case Nil
  then show ?case by simp
next
  case (Cons e files)
  show ?case
  proof (cases "e = (p, s)")
    case True
    have "create_file_section p s (''section-'' @ str_of_nat (snd (snd st))) None own repo_name
        \<in> set (fst (snd (add_file_entry own repo_name (p, s) st)))"
      by (simp add: sections_add_file_entry)
    then have "create_file_section p s (''section-'' @ str_of_nat (snd (snd st))) None own repo_name
        \<in> set (fst (snd (fold (add_file_entry own repo_name) files
              (add_file_entry own repo_name (p, s) st))))"
      using sections_fold_files_mono by blast
    then show ?thesis unfolding True by auto
  next
    case False
    with Cons.prems have "(p, s) \<in> set files" by simp
    from Cons.IH[OF this] show ?thesis by simp
  qed
qed

lemma sections_add_category_mono:
  "set (fst (snd st)) \<subseteq> set (fst (snd (add_category n own repo_name e st)))"
proof -
  obtain c files where e: "e = (c, files)" by (cases e)
  obtain toc secs cnt where st: "st = (toc, secs, cnt)" by (cases st)
  show ?thesis
    using sections_fold_files_mono[of "(if 1 < n then toc @ [''<li class=\"toc-category\">'' @ c @ '' ('' @ str_of_nat (length files) @ '' files)</li>''] else toc, secs, cnt)" own repo_name files]
    by (simp add: e st add_category_def)
qed

lemma sections_add_category:
  "(p, s) \<in> set files \<Longrightarrow>
   \<exists>sid. create_file_section p s sid None own repo_name
     \<in> set (fst (snd (add_category n own repo_name (c, files) st)))"
proof -
  assume a: "(p, s) \<in> set files"
  then have ne: "files \<noteq> []" by auto
  obtain toc secs cnt where st: "st = (toc, secs, cnt)" by (cases st)
  show ?thesis
    using sections_fold_files[OF a, of own repo_name "(if 1 < n then toc @ [''<li class=\"toc-category\">'' @ c @ '' ('' @ str_of_nat (length files) @ '' files)</li>''] else toc, secs, cnt)"] ne
    by (simp add: st add_category_def)
qed

lemma sections_fold_categories_mono:
  "set (fst (snd st)) \<subseteq> set (fst (snd (fold (add_category n own repo_name) org st)))"
proof (induction org arbitrary: st)
  case Nil
  show ?case by simp
next
  case (Cons e org)
  have "set (fst (snd st)) \<subseteq> set (fst (snd (add_category n own repo_name e st)))"
    by (rule sections_add_category_mono)
  also have "\<dots> \<subseteq> set (fst (snd (fold (add_category n own repo_name) org
      (add_category n own repo_name e st))))"
    by (rule Cons.IH)
  finally show ?case by simp
qed

lemma sections_fold_categories:
  "(c, files) \<in> set org \<Longrightarrow> (p, s) \<in> set files \<Longrightarrow>
   \<exists>sid. create_file_section p s sid None own repo_name
     \<in> set (fst (snd (fold (add_category n own repo_name) org st)))"
proof (induction org arbitrary: st)
  case Nil
  then show ?case by simp
next
  case (Cons e org)
  show ?case
  proof (cases "e = (c, files)")
    case True
    from sections_add_category[OF Cons.prems(2), of own repo_name n c st]
    obtain sid where "create_file_section p s sid None own repo_name
        \<in> set (fst (snd (add_category n own repo_name (c, files) st)))" by blast
    then have "create_file_section p s sid None own repo_name
        \<in> set (fst (snd (fold (add_category n own repo_name) org
              (add_category n own repo_name (c, files) st))))"
      using sections_fold_categories_mono by blast
    then show ?thesis unfolding True by auto
  next
    case False
    with Cons.prems have "(c, files) \<in> set org" by simp
    from Cons.IH[OF this Cons.prems(2)] show ?thesis by simp
  qed
qed

lemma gallery_group_contains:
  "img \<in> set images \<Longrightarrow> str_contains (gallery_group heading own repo_name images) (gallery_item own repo_name img)"
proof -
  assume a: "img \<in> set images"
  then have ne: "images \<noteq> []" by auto
  from a have c: "str_contains (concat (map (gallery_item own repo_name) images))
      (gallery_item own repo_name img)"
    by (intro contains_concat) simp
  show ?thesis
    by (simp only: gallery_group_def ne if_True not_False_eq_True)
       (rule contains_prepend, rule contains_append, rule c)
qed

lemma contains_chain3:
  "str_contains g1 x \<or> str_contains g2 x \<or> str_contains g3 x \<Longrightarrow>
   str_contains (g1 @ g2 @ g3 @ rest) x"
proof (elim disjE)
  assume "str_contains g1 x"
  then show ?thesis by (rule contains_append)
next
  assume "str_contains g2 x"
  then show ?thesis by (intro contains_prepend[of _ _ g1] contains_append)
next
  assume "str_contains g3 x"
  then have "str_contains (g3 @ rest) x" by (rule contains_append)
  then have "str_contains (g2 @ g3 @ rest) x" by (rule contains_prepend)
  then show ?thesis by (rule contains_prepend)
qed

lemma gallery_groups_chain3:
  "str_contains (gallery_group h1 own repo_name a) x \<or>
   str_contains (gallery_group h2 own repo_name b) x \<or>
   str_contains (gallery_group h3 own repo_name c) x \<Longrightarrow>
   str_contains (gallery_group h1 own repo_name a @ gallery_group h2 own repo_name b
                 @ gallery_group h3 own repo_name c @ rest) x"
  by (rule contains_chain3)

lemma gallery_contains_item:
  assumes "img \<in> set imgs"
  shows "str_contains (create_image_gallery_section (Some imgs) own repo_name)
           (gallery_item own repo_name img)"
proof -
  from assms have ne: "imgs \<noteq> []" by auto
  have d: "str_contains (gallery_group h1 own repo_name (filter is_architecture_image imgs))
        (gallery_item own repo_name img) \<or>
      str_contains (gallery_group h2 own repo_name
          (filter (\<lambda>i. \<not> is_architecture_image i \<and> is_screenshot_image i) imgs))
        (gallery_item own repo_name img) \<or>
      str_contains (gallery_group h3 own repo_name
          (filter (\<lambda>i. \<not> is_architecture_image i \<and> \<not> is_screenshot_image i) imgs))
        (gallery_item own repo_name img)" for h1 h2 h3
  proof (cases "is_architecture_image img")
    case True
    with assms have "img \<in> set (filter is_architecture_image imgs)" by simp
    from gallery_group_contains[OF this] show ?thesis by blast
  next
    case False
    show ?thesis
    proof (cases "is_screenshot_image img")
      case True
      with False assms
      have "img \<in> set (filter (\<lambda>i. \<not> is_architecture_image i \<and> is_screenshot_image i) imgs)"
        by simp
      from gallery_group_contains[OF this] show ?thesis by blast
    next
      case no: False
      with False assms
      have "img \<in> set (filter (\<lambda>i. \<not> is_architecture_image i \<and> \<not> is_screenshot_image i) imgs)"
        by simp
      from gallery_group_contains[OF this] show ?thesis by blast
    qed
  qed
  show ?thesis
    apply (simp only: create_image_gallery_section_def Let_def option.case ne if_False)
    apply (intro gallery_groups_chain3 contains_prepend)
    apply (rule d)
    done
qed

lemma contains_part4: "str_contains p x \<Longrightarrow> str_contains (h @ c @ t @ p @ g @ f) x"
proof -
  assume "str_contains p x"
  then have "str_contains (p @ g @ f) x" by (rule contains_append)
  then have "str_contains (t @ p @ g @ f) x" by (rule contains_prepend)
  then have "str_contains (c @ t @ p @ g @ f) x" by (rule contains_prepend)
  then show ?thesis by (rule contains_prepend)
qed

lemma contains_part5: "str_contains g x \<Longrightarrow> str_contains (h @ c @ t @ p @ g @ f) x"
proof -
  assume "str_contains g x"
  then have "str_contains (g @ f) x" by (rule contains_append)
  then have "str_contains (p @ g @ f) x" by (rule contains_prepend)
  then have "str_contains (t @ p @ g @ f) x" by (rule contains_prepend)
  then have "str_contains (c @ t @ p @ g @ f) x" by (rule contains_prepend)
  then show ?thesis by (rule contains_prepend)
qed

lemma content_pages_contains: "sec \<in> set section_content \<Longrightarrow> str_contains (content_pages section_content) sec"
proof -
  assume "sec \<in> set section_content"
  then have "str_contains (concat section_content) sec" by (rule contains_concat)
  then have c: "str_contains (concat section_content @ r) sec" for r by (rule contains_append)
  show ?thesis unfolding content_pages_def by (intro c contains_prepend)
qed

lemma gallery_part_contains: "str_contains g x \<Longrightarrow> str_contains (gallery_part g) x"
proof -
  assume "str_contains g x"
  then have c: "str_contains (g @ r) x" for r by (rule contains_append)
  show ?thesis unfolding gallery_part_def by (intro c contains_prepend)
qed

lemma html_contains_section:
  assumes "sec \<in> set (fst (snd (fold (add_category (length (choose_organized_content summaries markdown_files))
                 (dict_get repo_meta ''owner'' ''Unknown'') (dict_get repo_meta ''repo'' ''Repository''))
               (choose_organized_content summaries markdown_files) ([], [], 1))))"
  shows "str_contains
     (generate_onboarding_html current_date css summaries repo_meta author company markdown_files
        image_files) sec"
  unfolding generate_eq
  by (rule contains_part4, rule content_pages_contains, rule assms)

lemma html_contains_gallery:
  assumes "str_contains (create_image_gallery_section image_files
          (dict_get repo_meta ''owner'' ''Unknown'') (dict_get repo_meta ''repo'' ''Repository'')) x"
  shows "str_contains
     (generate_onboarding_html current_date css summaries repo_meta author company markdown_files
        image_files) x"
  unfolding generate_eq
  by (rule contains_part5, rule gallery_part_contains, rule assms)

lemma dict_get_other:
  "k' \<noteq> k \<Longrightarrow> dict_get (dict_set d k v) k' dflt = dict_get d k' dflt"
  by (simp add: dict_get_dict_set)

lemma dict_get_same: "dict_get (dict_set d k v) k dflt = v"
  by (simp add: dict_get_dict_set)

lemma cover_page_company_field:
  "slot_after COMPANY_FIELD
     (\<lambda>c. cover_page c repo_name github_url author current_date branch_name)"
  unfolding cover_page_def
  by (intro slot_after_here slot_after_prepend) (simp add: COMPANY_FIELD_def)

lemma cover_page_author_field:
  "slot_after AUTHOR_FIELD
     (\<lambda>a. cover_page company repo_name github_url a current_date branch_name)"
  unfolding cover_page_def
  by (intro slot_after_here slot_after_prepend) (simp add: AUTHOR_FIELD_def)

lemma slot_after_contains: "slot_after label f \<Longrightarrow> str_contains (f x) (label @ x)"
proof -
  assume "slot_after label f"
  then obtain pre post where "f x = pre @ (label @ x) @ post"
    unfolding slot_after_def by auto
  then show ?thesis by (simp only: contains_mid)
qed

lemma contains_prefix: "prefix (a @ x) s \<Longrightarrow> str_contains s x"
proof -
  assume "prefix (a @ x) s"
  then obtain r where "s = a @ x @ r" by (auto simp: prefix_def)
  then show ?thesis by (simp only: contains_mid)
qed

lemma cover_page_open:
  \<open>str_contains (cover_page company repo_name github_url author current_date branch_name)
     ''<div class="cover-page">''\<close>
  by (rule contains_prefix[of \<open>''    <!-- Cover Page -->\<newline>    ''\<close>])
     (simp add: cover_page_def)

lemma document_footer_open:
  \<open>str_contains (document_footer github_url) ''<div class="document-footer">''\<close>
  by (rule contains_prefix[of \<open>''    <!-- Footer -->\<newline>    ''\<close>])
     (simp add: document_footer_def)

lemma document_footer_close:
  \<open>endswith (document_footer github_url) ''</body>\<newline></html>\<newline>''\<close>
  by (simp add: endswith_def suffix_to_prefix document_footer_def)

lemma toc_page_empty:
  \<open>str_contains (toc_page 0 [])
     ''<strong>0</strong> sections''\<close>
  \<open>str_contains (toc_page 0 [])
     ''<ul class="toc-list">\<newline>            \<newline>        </ul>''\<close>
  by code_simp+

lemma content_pages_empty:
  \<open>str_contains (content_pages [])
     ''<div class="content-pages">\<newline>        \<newline>    </div>''\<close>
  by code_simp

lemma contains_part2: "str_contains c x \<Longrightarrow> str_contains (h @ c @ t @ p @ g @ f) x"
proof -
  assume "str_contains c x"
  then have "str_contains (c @ t @ p @ g @ f) x" by (rule contains_append)
  then show ?thesis by (rule contains_prepend)
qed

lemma contains_part3: "str_contains t x \<Longrightarrow> str_contains (h @ c @ t @ p @ g @ f) x"
proof -
  assume "str_contains t x"
  then have "str_contains (t @ p @ g @ f) x" by (rule contains_append)
  then have "str_contains (c @ t @ p @ g @ f) x" by (rule contains_prepend)
  then show ?thesis by (rule contains_prepend)
qed

lemma contains_part6: "str_contains f x \<Longrightarrow> str_contains (h @ c @ t @ p @ g @ f) x"
proof -
  assume "str_contains f x"
  then have "str_contains (g @ f) x" by (rule contains_prepend)
  then have "str_contains (p @ g @ f) x" by (rule contains_prepend)
  then have "str_contains (t @ p @ g @ f) x" by (rule contains_prepend)
  then have "str_contains (c @ t @ p @ g @ f) x" by (rule contains_prepend)
  then show ?thesis by (rule contains_prepend)
qed

lemma endswith_part6: "endswith f x \<Longrightarrow> endswith (h @ c @ t @ p @ g @ f) x"
  unfolding endswith_def by (intro suffix_appendI)

lemma format_paragraph_reference:
  assumes "py_strip q \<noteq> []" and "\<not> startswith (py_strip q) ''Note:''"
    and "str_contains (py_strip q) ''For full details, refer to:''"
    and "own \<noteq> []" and "repo_name \<noteq> []"
    and "search_link (py_strip q) = Some (file_name, file_path)"
  shows \<open>format_paragraph own repo_name q =
     [''<div class="reference">'' @ reference_link own repo_name file_path file_name @ ''</div>'']\<close>
  using assms by (simp add: format_paragraph_def reference_link_def Let_def)

lemma format_summary_contains:
  assumes "q \<in> set (str_split sep summary)" and "format_paragraph own repo_name q = [a @ x @ b]"
  shows "sep = [CHR 10, CHR 10] \<Longrightarrow> str_contains (format_summary_content summary own repo_name) x"
proof -
  assume sep: "sep = [CHR 10, CHR 10]"
  have "a @ x @ b \<in> set (format_paragraph own repo_name q)" by (simp add: assms(2))
  with assms(1) have "a @ x @ b \<in> set (concat (map (format_paragraph own repo_name) (str_split sep summary)))"
    by auto
  then have "str_contains (concat (concat (map (format_paragraph own repo_name) (str_split sep summary)))) (a @ x @ b)"
    by (rule contains_concat)
  then have "str_contains (format_summary_content summary own repo_name) (a @ x @ b)"
    by (simp add: format_summary_content_def sep)
  then show ?thesis using contains_mid[of a x b] by (rule contains_trans)
qed

lemma section_contains_summary:
  "str_contains (create_file_section file_path summary section_id image_files own repo_name)
     (format_summary_content summary own repo_name)"
proof -
  have c: "str_contains (format_summary_content summary own repo_name @ r)
      (format_summary_content summary own repo_name)" for r
    using contains_mid[of "[]" _ r] by simp
  show ?thesis
    unfolding create_file_section_def Let_def by (intro c contains_prepend)
qed

text \<open>
  C7.  For an empty dictionary of summaries the loops add no entry to the table of contents
  and no section, and the page is the head, the cover page, a table of contents without
  entries, a content block without sections, the gallery and the footer.  The page contains
  the opening of the cover page with the company, the author, the date and the branch in
  their fields, the count of 0 sections, a list of contents and a content block with
  nothing inside, and the opening of the footer; it ends with the closing of the body and
  the document.  No operation of the function raises, so the call returns.
\<close>

theorem html_empty_summaries:
  \<open>fold (add_category (length (choose_organized_content [] markdown_files)) own repo_name)
     (choose_organized_content [] markdown_files) ([], [], 1) = ([], [], 1) \<and>
   generate_onboarding_html current_date css [] repo_meta author company markdown_files image_files =
     html_head (dict_get repo_meta ''repo'' ''Repository'') css
     @ cover_page company (dict_get repo_meta ''repo'' ''Repository'')
         (''https://github.com/'' @ dict_get repo_meta ''owner'' ''Unknown'' @ ''/''
          @ dict_get repo_meta ''repo'' ''Repository'')
         author current_date (dict_get repo_meta ''branch'' ''main'')
     @ toc_page 0 []
     @ content_pages []
     @ gallery_part (create_image_gallery_section image_files
          (dict_get repo_meta ''owner'' ''Unknown'') (dict_get repo_meta ''repo'' ''Repository''))
     @ document_footer
         (''https://github.com/'' @ dict_get repo_meta ''owner'' ''Unknown'' @ ''/''
          @ dict_get repo_meta ''repo'' ''Repository'') \<and>
   str_contains
     (generate_onboarding_html current_date css [] repo_meta author company markdown_files
        image_files)
     ''<div class="cover-page">'' \<and>
   str_contains
     (generate_onboarding_html current_date css [] repo_meta author company markdown_files
        image_files)
     (COMPANY_FIELD @ company) \<and>
   str_contains
     (generate_onboarding_html current_date css [] repo_meta author company markdown_files
        image_files)
     (AUTHOR_FIELD @ author) \<and>
   str_contains
     (generate_onboarding_html current_date css [] repo_meta author company markdown_files
        image_files)
     (DATE_FIELD @ current_date) \<and>
   str_contains
     (generate_onboarding_html current_date css [] repo_meta author company markdown_files
        image_files)
     (BRANCH_FIELD @ dict_get repo_meta ''branch'' ''main'') \<and>
   str_contains
     (generate_onboarding_html current_date css [] repo_meta author company markdown_files
        image_files)
     ''<strong>0</strong> sections'' \<and>
   str_contains
     (generate_onboarding_html current_date css [] repo_meta author company markdown_files
        image_files)
     ''<ul class="toc-list">\<newline>            \<newline>        </ul>'' \<and>
   str_contains
     (generate_onboarding_html current_date css [] repo_meta author company markdown_files
        image_files)
     ''<div class="content-pages">\<newline>        \<newline>    </div>'' \<and>
   str_contains
     (generate_onboarding_html current_date css [] repo_meta author company markdown_files
        image_files)
     ''<div class="document-footer">'' \<and>
   endswith
     (generate_onboarding_html current_date css [] repo_meta author company markdown_files
        image_files)
     ''</body>\<newline></html>\<newline>''\<close>
proof -
  have c: "choose_organized_content [] markdown_files = [(''Documentation'', [])]"
    by (simp add: choose_organized_content_def split: option.splits)
  have f: "fold (add_category (length (choose_organized_content [] markdown_files)) own repo_name)
     (choose_organized_content [] markdown_files) ([], [], 1) = ([], [], 1)" for own repo_name
    by (simp add: c add_category_def)
  have g: "generate_onboarding_html current_date css [] repo_meta author company markdown_files image_files =
     html_head (dict_get repo_meta ''repo'' ''Repository'') css
     @ cover_page company (dict_get repo_meta ''repo'' ''Repository'')
         (''https://github.com/'' @ dict_get repo_meta ''owner'' ''Unknown'' @ ''/''
          @ dict_get repo_meta ''repo'' ''Repository'')
         author current_date (dict_get repo_meta ''branch'' ''main'')
     @ toc_page 0 []
     @ content_pages []
     @ gallery_part (create_image_gallery_section image_files
          (dict_get repo_meta ''owner'' ''Unknown'') (dict_get repo_meta ''repo'' ''Repository''))
     @ document_footer
         (''https://github.com/'' @ dict_get repo_meta ''owner'' ''Unknown'' @ ''/''
          @ dict_get repo_meta ''repo'' ''Repository'')"
    unfolding generate_eq f by simp
  show ?thesis
    unfolding g
    by (intro conjI f refl
        contains_part2[OF cover_page_open]
        contains_part2[OF slot_after_contains[OF cover_page_company_field]]
        contains_part2[OF slot_after_contains[OF cover_page_author_field]]
        contains_part2[OF slot_after_contains[OF cover_page_date_field]]
        contains_part2[OF slot_after_contains[OF cover_page_branch_field]]
        contains_part3[OF toc_page_empty(1)] contains_part3[OF toc_page_empty(2)]
        contains_part4[OF content_pages_empty]
        contains_part6[OF document_footer_open]
        endswith_part6[OF document_footer_close])
qed

text \<open>
  C10.  The branch recorded in \<open>repo_meta\<close> is placed at one position of the page, the
  branch field of the cover page, and the rest of the page is the same for every branch.
  For every file of the organized content the page contains the link to the file under the
  branch \<open>main\<close>; for every paragraph of its summary that \<open>format_summary_content\<close>
  turns into a reference link, the page contains that link under the branch \<open>main\<close>; and
  for every image of the image list the page contains the image element with the URL
  under the branch \<open>main\<close>.
\<close>

theorem html_branch_main:
  "(\<exists>pre post. \<forall>b.
      generate_onboarding_html current_date css summaries (dict_set repo_meta ''branch'' b) author
        company markdown_files image_files = pre @ BRANCH_FIELD @ b @ post) \<and>
   (\<forall>(category, files) \<in> set (choose_organized_content summaries markdown_files).
      \<forall>(file_path, summary) \<in> set files.
        str_contains
          (generate_onboarding_html current_date css summaries repo_meta author company
             markdown_files image_files)
          (file_link (dict_get repo_meta ''owner'' ''Unknown'')
             (dict_get repo_meta ''repo'' ''Repository'') file_path)) \<and>
   (\<forall>(category, files) \<in> set (choose_organized_content summaries markdown_files).
      \<forall>(file_path, summary) \<in> set files.
        \<forall>q \<in> set (str_split [CHR 10, CHR 10] summary). \<forall>link_name link_path.
          py_strip q \<noteq> [] \<and> \<not> startswith (py_strip q) ''Note:'' \<and>
          str_contains (py_strip q) ''For full details, refer to:'' \<and>
          dict_get repo_meta ''owner'' ''Unknown'' \<noteq> [] \<and>
          dict_get repo_meta ''repo'' ''Repository'' \<noteq> [] \<and>
          search_link (py_strip q) = Some (link_name, link_path) \<longrightarrow>
          str_contains
            (generate_onboarding_html current_date css summaries repo_meta author company
               markdown_files image_files)
            (reference_link (dict_get repo_meta ''owner'' ''Unknown'')
               (dict_get repo_meta ''repo'' ''Repository'') link_path link_name)) \<and>
   (\<forall>imgs. image_files = Some imgs \<longrightarrow>
      (\<forall>img_path \<in> set imgs.
         str_contains
           (generate_onboarding_html current_date css summaries repo_meta author company
              markdown_files image_files)
           (image_tag (dict_get repo_meta ''owner'' ''Unknown'')
              (dict_get repo_meta ''repo'' ''Repository'') img_path)))"
proof (intro conjI)
  have "slot_after BRANCH_FIELD (\<lambda>b. generate_onboarding_html current_date css summaries
      (dict_set repo_meta ''branch'' b) author company markdown_files image_files)"
    unfolding generate_eq
    by (simp only: dict_get_same
          dict_get_other[of "''repo''" "''branch''", simplified]
          dict_get_other[of "''owner''" "''branch''", simplified])
       (intro slot_after_prepend slot_after_append cover_page_branch_field)
  then show "\<exists>pre post. \<forall>b.
      generate_onboarding_html current_date css summaries (dict_set repo_meta ''branch'' b) author
        company markdown_files image_files = pre @ BRANCH_FIELD @ b @ post"
    unfolding slot_after_def .
next
  show "\<forall>(category, files) \<in> set (choose_organized_content summaries markdown_files).
      \<forall>(file_path, summary) \<in> set files.
        str_contains
          (generate_onboarding_html current_date css summaries repo_meta author company
             markdown_files image_files)
          (file_link (dict_get repo_meta ''owner'' ''Unknown'')
             (dict_get repo_meta ''repo'' ''Repository'') file_path)"
  proof (intro ballI, clarify)
    fix category files file_path summary
    assume c: "(category, files) \<in> set (choose_organized_content summaries markdown_files)"
      and f: "(file_path, summary) \<in> set files"
    from sections_fold_categories[OF c f] obtain sid where
      "create_file_section file_path summary sid None (dict_get repo_meta ''owner'' ''Unknown'')
         (dict_get repo_meta ''repo'' ''Repository'')
       \<in> set (fst (snd (fold (add_category (length (choose_organized_content summaries markdown_files))
                 (dict_get repo_meta ''owner'' ''Unknown'') (dict_get repo_meta ''repo'' ''Repository''))
               (choose_organized_content summaries markdown_files) ([], [], 1))))"
      by blast
    from html_contains_section[OF this] section_contains_link
    show "str_contains
          (generate_onboarding_html current_date css summaries repo_meta author company
             markdown_files image_files)
          (file_link (dict_get repo_meta ''owner'' ''Unknown'')
             (dict_get repo_meta ''repo'' ''Repository'') file_path)"
      by (rule contains_trans)
  qed
next
  show "\<forall>(category, files) \<in> set (choose_organized_content summaries markdown_files).
      \<forall>(file_path, summary) \<in> set files.
        \<forall>q \<in> set (str_split [CHR 10, CHR 10] summary). \<forall>link_name link_path.
          py_strip q \<noteq> [] \<and> \<not> startswith (py_strip q) ''Note:'' \<and>
          str_contains (py_strip q) ''For full details, refer to:'' \<and>
          dict_get repo_meta ''owner'' ''Unknown'' \<noteq> [] \<and>
          dict_get repo_meta ''repo'' ''Repository'' \<noteq> [] \<and>
          search_link (py_strip q) = Some (link_name, link_path) \<longrightarrow>
          str_contains
            (generate_onboarding_html current_date css summaries repo_meta author company
               markdown_files image_files)
            (reference_link (dict_get repo_meta ''owner'' ''Unknown'')
               (dict_get repo_meta ''repo'' ''Repository'') link_path link_name)"
  proof (intro ballI, clarify)
    fix category files file_path summary q link_name link_path
    assume c: "(category, files) \<in> set (choose_organized_content summaries markdown_files)"
      and f: "(file_path, summary) \<in> set files"
      and q: "q \<in> set (str_split [CHR 10, CHR 10] summary)"
      and p: "py_strip q \<noteq> []" "\<not> startswith (py_strip q) ''Note:''"
        "str_contains (py_strip q) ''For full details, refer to:''"
        "dict_get repo_meta ''owner'' ''Unknown'' \<noteq> []"
        "dict_get repo_meta ''repo'' ''Repository'' \<noteq> []"
        "search_link (py_strip q) = Some (link_name, link_path)"
    from sections_fold_categories[OF c f] obtain sid where
      "create_file_section file_path summary sid None (dict_get repo_meta ''owner'' ''Unknown'')
         (dict_get repo_meta ''repo'' ''Repository'')
       \<in> set (fst (snd (fold (add_category (length (choose_organized_content summaries markdown_files))
                 (dict_get repo_meta ''owner'' ''Unknown'') (dict_get repo_meta ''repo'' ''Repository''))
               (choose_organized_content summaries markdown_files) ([], [], 1))))"
      by blast
    from html_contains_section[OF this]
    have 1: "str_contains
          (generate_onboarding_html current_date css summaries repo_meta author company
             markdown_files image_files)
          (create_file_section file_path summary sid None (dict_get repo_meta ''owner'' ''Unknown'')
             (dict_get repo_meta ''repo'' ''Repository''))" .
    have 2: "str_contains
          (format_summary_content summary (dict_get repo_meta ''owner'' ''Unknown'')
             (dict_get repo_meta ''repo'' ''Repository''))
          (reference_link (dict_get repo_meta ''owner'' ''Unknown'')
             (dict_get repo_meta ''repo'' ''Repository'') link_path link_name)"
      using format_summary_contains[OF q format_paragraph_reference[OF p]] by simp
    from contains_trans[OF 1 section_contains_summary] 2
    show "str_contains
            (generate_onboarding_html current_date css summaries repo_meta author company
               markdown_files image_files)
            (reference_link (dict_get repo_meta ''owner'' ''Unknown'')
               (dict_get repo_meta ''repo'' ''Repository'') link_path link_name)"
      by (rule contains_trans)
  qed
next
  show "\<forall>imgs. image_files = Some imgs \<longrightarrow>
      (\<forall>img_path \<in> set imgs.
         str_contains
           (generate_onboarding_html current_date css summaries repo_meta author company
              markdown_files image_files)
           (image_tag (dict_get repo_meta ''owner'' ''Unknown'')
              (dict_get repo_meta ''repo'' ''Repository'') img_path))"
  proof (intro allI impI ballI)
    fix imgs img_path
    assume i: "image_files = Some imgs" and m: "img_path \<in> set imgs"
    have "str_contains (create_image_gallery_section image_files
          (dict_get repo_meta ''owner'' ''Unknown'') (dict_get repo_meta ''repo'' ''Repository''))
        (image_tag (dict_get repo_meta ''owner'' ''Unknown'')
              (dict_get repo_meta ''repo'' ''Repository'') img_path)"
      unfolding i using gallery_contains_item[OF m] gallery_item_contains_tag
      by (rule contains_trans)
    then show "str_contains
           (generate_onboarding_html current_date css summaries repo_meta author company
              markdown_files image_files)
           (image_tag (dict_get repo_meta ''owner'' ''Unknown'')
              (dict_get repo_meta ''repo'' ''Repository'') img_path)"
      by (rule html_contains_gallery)
  qed
qed

theorem html_branch_main_witness:
  "(''Documentation'', fallback_readme) \<in> set (choose_organized_content fallback_readme None) \<and>
   (''README.md'', fallback_summary ''README.md'') \<in> set fallback_readme \<and>
   search_link (py_strip (fallback_summary ''README.md'')) = Some (''README.md'', ''README.md'') \<and>
   dict_get widgets_meta ''branch'' ''main'' = ''develop'' \<and>
   str_contains
     (generate_onboarding_html ''January 01, 2026'' [] fallback_readme
        widgets_meta ''A. Author'' ''Acme'' None (Some [''img/logo.png'']))
     (file_link ''acme'' ''widgets'' ''README.md'') \<and>
   str_contains
     (generate_onboarding_html ''January 01, 2026'' [] fallback_readme
        widgets_meta ''A. Author'' ''Acme'' None (Some [''img/logo.png'']))
     (reference_link ''acme'' ''widgets'' ''README.md'' ''README.md'') \<and>
   str_contains
     (generate_onboarding_html ''January 01, 2026'' [] fallback_readme
        widgets_meta ''A. Author'' ''Acme'' None (Some [''img/logo.png'']))
     (image_tag ''acme'' ''widgets'' ''img/logo.png'')"
proof -
  let ?html = "generate_onboarding_html ''January 01, 2026'' [] fallback_readme
        widgets_meta ''A. Author'' ''Acme'' None (Some [''img/logo.png''])"
  note t = html_branch_main[of "''January 01, 2026''" "[]" fallback_readme
        widgets_meta "''A. Author''" "''Acme''" None "Some [''img/logo.png'']"]
  have h: "(''Documentation'', fallback_readme) \<in> set (choose_organized_content fallback_readme None)"
    "(''README.md'', fallback_summary ''README.md'') \<in> set fallback_readme"
    by code_simp+
  have g: "dict_get widgets_meta ''owner'' ''Unknown'' = ''acme''"
    "dict_get widgets_meta ''repo'' ''Repository'' = ''widgets''"
    "dict_get widgets_meta ''branch'' ''main'' = ''develop''"
    by code_simp+
  have q: "fallback_summary ''README.md'' \<in> set (str_split [CHR 10, CHR 10] (fallback_summary ''README.md''))"
    by code_simp
  have p: "py_strip (fallback_summary ''README.md'') \<noteq> []"
    "\<not> startswith (py_strip (fallback_summary ''README.md'')) ''Note:''"
    "str_contains (py_strip (fallback_summary ''README.md'')) ''For full details, refer to:''"
    "search_link (py_strip (fallback_summary ''README.md'')) = Some (''README.md'', ''README.md'')"
    "''acme'' \<noteq> []" "''widgets'' \<noteq> []"
    by code_simp+
  from t h have 1: "str_contains ?html (file_link ''acme'' ''widgets'' ''README.md'')"
    unfolding g by fastforce
  from t have "\<forall>(category, files) \<in> set (choose_organized_content fallback_readme None).
      \<forall>(file_path, summary) \<in> set files.
        \<forall>q \<in> set (str_split [CHR 10, CHR 10] summary). \<forall>link_name link_path.
          py_strip q \<noteq> [] \<and> \<not> startswith (py_strip q) ''Note:'' \<and>
          str_contains (py_strip q) ''For full details, refer to:'' \<and>
          ''acme'' \<noteq> [] \<and> ''widgets'' \<noteq> [] \<and>
          search_link (py_strip q) = Some (link_name, link_path) \<longrightarrow>
          str_contains ?html (reference_link ''acme'' ''widgets'' link_path link_name)"
    unfolding g by blast
  with h q p have 2: "str_contains ?html (reference_link ''acme'' ''widgets'' ''README.md'' ''README.md'')"
    by fast
  from t have 3: "str_contains ?html (image_tag ''acme'' ''widgets'' ''img/logo.png'')"
    unfolding g by fastforce
  show ?thesis using h p(4) g(3) 1 2 3 by blast
qed

end
